theory Spec2Isabelle
  imports Complex_Main "HOL-Library.Char_ord" "HOL-Library.List_Lexorder" "HOL-Library.AList"
    "HOL-Library.Log_Nat"
begin

section \<open>Python values used by the configuration panel\<close>

text \<open>
  The exceptions the modelled code can raise. A function of the source that can raise
  returns \<open>py_error + 'a\<close>, with \<open>Inl\<close> for the exception.
\<close>

datatype py_error = KeyError string | IndexError | TypeError | ValueError | OverflowError

text \<open>
  A Python \<open>dict\<close> with \<open>str\<close> keys is an association list in insertion order.
  \<open>d[k]\<close> raises \<open>KeyError\<close> on a missing key; \<open>d[k] = v\<close> replaces the value of an
  existing key in place and appends a new key at the end.
\<close>

type_synonym 'v pydict = "(string \<times> 'v) list"

definition dict_get :: "'v pydict \<Rightarrow> string \<Rightarrow> py_error + 'v" where
  "dict_get d k = (case map_of d k of None \<Rightarrow> Inl (KeyError k) | Some v \<Rightarrow> Inr v)"

definition dict_set :: "'v pydict \<Rightarrow> string \<Rightarrow> 'v \<Rightarrow> 'v pydict" where
  "dict_set d k v = AList.update k v d"

definition dict_keys :: "'v pydict \<Rightarrow> string list" where
  "dict_keys d = map fst d"

text \<open>
  \<open>xs[i]\<close> on a Python list: a negative index counts from the end, an index out of
  range raises \<open>IndexError\<close>.
\<close>

definition list_index :: "'a list \<Rightarrow> int \<Rightarrow> py_error + 'a" where
  "list_index xs i =
     (if 0 \<le> i \<and> i < int (length xs) then Inr (xs ! nat i)
      else if i < 0 \<and> - int (length xs) \<le> i then Inr (xs ! nat (int (length xs) + i))
      else Inl IndexError)"

section \<open>Floating-point numbers\<close>

text \<open>
  A Python \<open>float\<close> is an IEEE 754 binary64 number: a sign and a magnitude (a finite
  number with a 53-bit significand and an exponent from \<open>-1022\<close> to \<open>1023\<close>, or one
  below \<open>2 powi (-1022)\<close> that is a multiple of \<open>2 powi (-1074)\<close>), an infinity, or a
  NaN. The sign is \<open>True\<close> for a negative number. Arithmetic rounds the exact result
  to the nearest such number, a tie to the one with an even significand.
\<close>

datatype double = Finite bool rat | Infinity bool | NaN

text \<open>The exponent \<open>e\<close> with \<open>2 powi e \<le> x < 2 powi (e + 1)\<close>, for \<open>0 < x\<close>.\<close>

definition ilog2 :: "rat \<Rightarrow> int" where
  "ilog2 x =
     (let (p, q) = quotient_of x; e = bitlen p - bitlen q
      in if 2 powi e \<le> x then e else e - 1)"

definition round_half_even :: "rat \<Rightarrow> int" where
  "round_half_even y =
     (let f = \<lfloor>y\<rfloor>; d = y - of_int f
      in if d < 1 / 2 then f else if 1 / 2 < d then f + 1
         else if even f then f else f + 1)"

text \<open>
  Rounding a magnitude \<open>0 \<le> x\<close> to binary64; \<open>None\<close> when the result is too large
  for a finite number.
\<close>

definition round_double :: "rat \<Rightarrow> rat option" where
  "round_double x =
     (if x = 0 then Some 0
      else let e = max (ilog2 x) (- 1022);
               ulp = 2 powi (e - 52);
               r = of_int (round_half_even (x / ulp)) * ulp
           in if r < 2 powi 1024 then Some r else None)"

definition is_double :: "rat \<Rightarrow> bool" where
  "is_double m \<longleftrightarrow> 0 \<le> m \<and> round_double m = Some m"

definition double_value :: "bool \<Rightarrow> rat \<Rightarrow> rat" where
  "double_value s m = (if s then - m else m)"

text \<open>\<open>x * y\<close> on two floats.\<close>

fun fmul :: "double \<Rightarrow> double \<Rightarrow> double" where
  "fmul NaN y = NaN"
| "fmul x NaN = NaN"
| "fmul (Infinity s) (Infinity t) = Infinity (s \<noteq> t)"
| "fmul (Infinity s) (Finite t b) = (if b = 0 then NaN else Infinity (s \<noteq> t))"
| "fmul (Finite s a) (Infinity t) = (if a = 0 then NaN else Infinity (s \<noteq> t))"
| "fmul (Finite s a) (Finite t b) =
     (case round_double (a * b) of
        Some m \<Rightarrow> Finite (s \<noteq> t) m
      | None \<Rightarrow> Infinity (s \<noteq> t))"

text \<open>The conversion of an \<open>int\<close> to a float, which raises when the result is not finite.\<close>

definition int_to_double :: "int \<Rightarrow> py_error + double" where
  "int_to_double i =
     (case round_double (of_int \<bar>i\<bar>) of
        Some m \<Rightarrow> Inr (Finite (i < 0) m)
      | None \<Rightarrow> Inl OverflowError)"

text \<open>
  The Python values of a sidecar document. A dict key is a hashable scalar; the numbers
  of a string are the code points of its characters, below 256 in this model.
\<close>

datatype pykey = KNone | KBool bool | KInt int | KFloat double | KStr string

datatype pyval =
    PyNone
  | PyBool bool
  | PyInt int
  | PyFloat double
  | PyStr string
  | PyList "pyval list"
  | PyDict "(pykey \<times> pyval) list"

text \<open>
  What the code uses and this file does not define: \<open>clean_bookmarks\<close> of the
  plugin's package, the parser behind \<open>float(s)\<close> for a string \<open>s\<close>, and \<open>repr\<close> of
  a finite float (given its sign and magnitude). The model takes them as parameters.
\<close>

record externals =
  clean_bookmarks :: "pyval \<Rightarrow> py_error + pyval"
  float_of_str :: "string \<Rightarrow> py_error + double"
  float_repr :: "bool \<Rightarrow> rat \<Rightarrow> string"

text \<open>\<open>float(value)\<close>\<close>

fun py_float :: "externals \<Rightarrow> pyval \<Rightarrow> py_error + double" where
  "py_float ext (PyFloat d) = Inr d"
| "py_float ext (PyInt i) = int_to_double i"
| "py_float ext (PyBool b) = Inr (Finite False (if b then 1 else 0))"
| "py_float ext (PyStr s) = float_of_str ext s"
| "py_float ext PyNone = Inl TypeError"
| "py_float ext (PyList xs) = Inl TypeError"
| "py_float ext (PyDict d) = Inl TypeError"

text \<open>\<open>value * n\<close> for an \<open>int\<close> \<open>n\<close>: a product of numbers, or a sequence repeated.\<close>

fun py_mul_int :: "pyval \<Rightarrow> int \<Rightarrow> py_error + pyval" where
  "py_mul_int (PyInt i) n = Inr (PyInt (i * n))"
| "py_mul_int (PyBool b) n = Inr (PyInt ((if b then 1 else 0) * n))"
| "py_mul_int (PyFloat d) n =
     (case int_to_double n of Inl e \<Rightarrow> Inl e | Inr f \<Rightarrow> Inr (PyFloat (fmul d f)))"
| "py_mul_int (PyStr s) n = Inr (PyStr (concat (replicate (nat n) s)))"
| "py_mul_int (PyList xs) n = Inr (PyList (concat (replicate (nat n) xs)))"
| "py_mul_int PyNone n = Inl TypeError"
| "py_mul_int (PyDict d) n = Inl TypeError"

text \<open>\<open>math.floor(x)\<close>\<close>

fun math_floor :: "pyval \<Rightarrow> py_error + pyval" where
  "math_floor (PyFloat (Finite s m)) = Inr (PyInt \<lfloor>double_value s m\<rfloor>)"
| "math_floor (PyFloat (Infinity s)) = Inl OverflowError"
| "math_floor (PyFloat NaN) = Inl ValueError"
| "math_floor (PyInt i) = Inr (PyInt i)"
| "math_floor (PyBool b) = Inr (PyInt (if b then 1 else 0))"
| "math_floor PyNone = Inl TypeError"
| "math_floor (PyStr s) = Inl TypeError"
| "math_floor (PyList xs) = Inl TypeError"
| "math_floor (PyDict d) = Inl TypeError"

section \<open>json.dumps with an indent\<close>

text \<open>
  \<open>json.dumps(value, indent=2)\<close> runs the encoder with its defaults: the item
  separator \<open>,\<close> and the key separator \<open>: \<close>, strings escaped to ASCII, keys in the
  dict's order, and after each opening bracket and each item a newline followed by
  \<open>indent\<close> spaces for every level of nesting.
\<close>

definition digit_char :: "nat \<Rightarrow> char" where
  "digit_char n = ''0123456789abcdef'' ! n"

fun nat_str :: "nat \<Rightarrow> string" where
  "nat_str n = (if n < 10 then [digit_char n] else nat_str (n div 10) @ [digit_char (n mod 10)])"

definition intstr :: "int \<Rightarrow> string" where
  "intstr i = (if i < 0 then CHR ''-'' # nat_str (nat (- i)) else nat_str (nat i))"

definition floatstr :: "externals \<Rightarrow> double \<Rightarrow> string" where
  "floatstr ext o' =
     (case o' of
        NaN \<Rightarrow> ''NaN''
      | Infinity s \<Rightarrow> (if s then ''-Infinity'' else ''Infinity'')
      | Finite s m \<Rightarrow> float_repr ext s m)"

definition escape_char :: "char \<Rightarrow> string" where
  "escape_char c =
     (if c = CHR 0x5C then [CHR 0x5C, CHR 0x5C]
      else if c = CHR 0x22 then [CHR 0x5C, CHR 0x22]
      else if c = CHR 0x08 then [CHR 0x5C, CHR ''b'']
      else if c = CHR 0x0C then [CHR 0x5C, CHR ''f'']
      else if c = CHR 0x0A then [CHR 0x5C, CHR ''n'']
      else if c = CHR 0x0D then [CHR 0x5C, CHR ''r'']
      else if c = CHR 0x09 then [CHR 0x5C, CHR ''t'']
      else if CHR 0x20 \<le> c \<and> c \<le> CHR 0x7E then [c]
      else [CHR 0x5C, CHR ''u'', CHR ''0'', CHR ''0'',
            digit_char (of_char c div 16), digit_char (of_char c mod 16)])"

definition encode_basestring_ascii :: "string \<Rightarrow> string" where
  "encode_basestring_ascii s = CHR 0x22 # concat (map escape_char s) @ [CHR 0x22]"

definition newline_indent :: "nat \<Rightarrow> nat \<Rightarrow> string" where
  "newline_indent indent level = CHR 0x0A # replicate (indent * level) CHR 0x20"

definition key_str :: "externals \<Rightarrow> pykey \<Rightarrow> string" where
  "key_str ext key =
     (case key of
        KStr s \<Rightarrow> s
      | KFloat d \<Rightarrow> floatstr ext d
      | KBool b \<Rightarrow> (if b then ''true'' else ''false'')
      | KNone \<Rightarrow> ''null''
      | KInt i \<Rightarrow> intstr i)"

text \<open>
  The encoder at a nesting level; \<open>first\<close> is the flag of the loops over the items,
  which puts the separator before every item but the first.
\<close>

fun iterencode :: "externals \<Rightarrow> nat \<Rightarrow> pyval \<Rightarrow> nat \<Rightarrow> string"
  and iterencode_list :: "externals \<Rightarrow> nat \<Rightarrow> pyval list \<Rightarrow> nat \<Rightarrow> bool \<Rightarrow> string"
  and iterencode_dict :: "externals \<Rightarrow> nat \<Rightarrow> (pykey \<times> pyval) list \<Rightarrow> nat \<Rightarrow> bool \<Rightarrow> string"
where
  "iterencode ext indent (PyStr s) level = encode_basestring_ascii s"
| "iterencode ext indent PyNone level = ''null''"
| "iterencode ext indent (PyBool b) level = (if b then ''true'' else ''false'')"
| "iterencode ext indent (PyInt i) level = intstr i"
| "iterencode ext indent (PyFloat d) level = floatstr ext d"
| "iterencode ext indent (PyList lst) level =
     (if lst = [] then ''[]''
      else ''['' @ newline_indent indent (level + 1)
           @ iterencode_list ext indent lst (level + 1) True
           @ newline_indent indent level @ '']'')"
| "iterencode ext indent (PyDict dct) level =
     (if dct = [] then ''{}''
      else ''{'' @ newline_indent indent (level + 1)
           @ iterencode_dict ext indent dct (level + 1) True
           @ newline_indent indent level @ ''}'')"
| "iterencode_list ext indent [] level first = []"
| "iterencode_list ext indent (v # rest) level first =
     (if first then [] else '','' @ newline_indent indent level)
     @ iterencode ext indent v level
     @ iterencode_list ext indent rest level False"
| "iterencode_dict ext indent [] level first = []"
| "iterencode_dict ext indent ((key, v) # rest) level first =
     (if first then [] else '','' @ newline_indent indent level)
     @ encode_basestring_ascii (key_str ext key) @ '': ''
     @ iterencode ext indent v level
     @ iterencode_dict ext indent rest level False"

definition json_dumps :: "externals \<Rightarrow> pyval \<Rightarrow> nat \<Rightarrow> string" where
  "json_dumps ext obj indent = iterencode ext indent obj 0"

section \<open>The host's columns\<close>

text \<open>
  The metadata dict of one column. The code reads three of its keys: \<open>'name'\<close>,
  \<open>'datatype'\<close> and \<open>'is_multiple'\<close>; a field is \<open>None\<close> when the dict has no such key
  (the entry synthesized for the built-in rating column has only \<open>'name'\<close>).
  \<open>col_is_multiple\<close> holds the truth value of the entry, which is all that
  \<open>not column['is_multiple']\<close> reads.
\<close>

record column =
  col_name :: "string option"
  col_datatype :: "string option"
  col_is_multiple :: "bool option"

section \<open>CustomColumnComboBox\<close>

text \<open>
  The combo box: the attribute \<open>column_names\<close> of the source, and the part of the
  \<open>QComboBox\<close> state the code uses (the item texts and the current index, which is
  \<open>-1\<close> when no item is current). \<open>clear\<close> removes the items; \<open>addItem\<close> appends one,
  and the first item of an empty box becomes current; \<open>setCurrentIndex\<close> with an index
  that is no item's leaves no item current.
\<close>

record combo_box =
  column_names :: "string list"
  items :: "string list"
  currentIndex :: int

definition new_combo :: combo_box where
  "new_combo = \<lparr>column_names = [], items = [], currentIndex = -1\<rparr>"

definition clear :: "combo_box \<Rightarrow> combo_box" where
  "clear cb = cb\<lparr>items := [], currentIndex := -1\<rparr>"

definition addItem :: "combo_box \<Rightarrow> string \<Rightarrow> combo_box" where
  "addItem cb text =
     cb\<lparr>items := items cb @ [text],
        currentIndex := (if items cb = [] then 0 else currentIndex cb)\<rparr>"

definition setCurrentIndex :: "combo_box \<Rightarrow> int \<Rightarrow> combo_box" where
  "setCurrentIndex cb i =
     cb\<lparr>currentIndex := (if 0 \<le> i \<and> i < int (length (items cb)) then i else -1)\<rparr>"

text \<open>\<open>'{} ({})'.format(name, key)\<close>\<close>

definition display_name :: "string \<Rightarrow> string \<Rightarrow> string" where
  "display_name nm key = nm @ '' ('' @ key @ '')''"

text \<open>
  The loop of \<open>populate_combo\<close> over the sorted keys; the state is the combo box and
  \<open>selected_idx\<close>.
\<close>

fun populate_loop ::
  "column pydict \<Rightarrow> string \<Rightarrow> string list \<Rightarrow> combo_box \<Rightarrow> int \<Rightarrow> py_error + (combo_box \<times> int)" where
  "populate_loop custom_columns selected_column [] cb selected_idx = Inr (cb, selected_idx)"
| "populate_loop custom_columns selected_column (key # keys) cb selected_idx =
     (let cb1 = cb\<lparr>column_names := column_names cb @ [key]\<rparr> in
      case dict_get custom_columns key of
        Inl e \<Rightarrow> Inl e
      | Inr col \<Rightarrow>
         (case col_name col of
            None \<Rightarrow> Inl (KeyError ''name'')
          | Some nm \<Rightarrow>
             (let cb2 = addItem cb1 (display_name nm key);
                  selected_idx' =
                    (if key = selected_column then int (length (column_names cb2)) - 1
                     else selected_idx)
              in populate_loop custom_columns selected_column keys cb2 selected_idx')))"

definition populate_combo :: "combo_box \<Rightarrow> column pydict \<Rightarrow> string \<Rightarrow> py_error + combo_box" where
  "populate_combo self custom_columns selected_column =
     (let cb0 = clear self;
          cb1 = cb0\<lparr>column_names := ['''']\<rparr>;
          cb2 = addItem cb1 ''do not sync''
      in case populate_loop custom_columns selected_column
                (sort (dict_keys custom_columns)) cb2 0 of
           Inl e \<Rightarrow> Inl e
         | Inr (cb3, selected_idx) \<Rightarrow> Inr (setCurrentIndex cb3 selected_idx))"

definition get_selected_column :: "combo_box \<Rightarrow> py_error + string" where
  "get_selected_column self = list_index (column_names self) (currentIndex self)"

text \<open>\<open>CustomColumnComboBox(parent, custom_columns, selected_column)\<close>\<close>

definition CustomColumnComboBox :: "column pydict \<Rightarrow> string \<Rightarrow> py_error + combo_box" where
  "CustomColumnComboBox custom_columns selected_column =
     populate_combo new_combo custom_columns selected_column"

section \<open>The field registry COLUMNS\<close>

text \<open>
  One entry of \<open>COLUMNS\<close>. \<open>coltype\<close> is the key \<open>'type'\<close>; \<open>transform\<close> is \<open>None\<close> for
  an entry without that key; \<open>combo\<close> is the key \<open>'combo'\<close>, which the layout adds.
  The key \<open>'tooltip'\<close> is only handed to the label widget and is left out.
\<close>

record field =
  name :: string
  label :: string
  coltype :: string
  sidecar_property :: "string list"
  transform :: "(pyval \<Rightarrow> py_error + pyval) option"
  combo :: "combo_box option"

text \<open>\<open>lambda value: float(value)\<close>\<close>

definition transform_percent_read :: "externals \<Rightarrow> pyval \<Rightarrow> py_error + pyval" where
  "transform_percent_read ext value =
     (case py_float ext value of Inl e \<Rightarrow> Inl e | Inr f \<Rightarrow> Inr (PyFloat f))"

text \<open>\<open>lambda value: math.floor(float(value) * 100)\<close>\<close>

definition transform_percent_read_int :: "externals \<Rightarrow> pyval \<Rightarrow> py_error + pyval" where
  "transform_percent_read_int ext value =
     (case py_float ext value of
        Inl e \<Rightarrow> Inl e
      | Inr f \<Rightarrow>
         (case py_mul_int (PyFloat f) 100 of
            Inl e \<Rightarrow> Inl e
          | Inr p \<Rightarrow> math_floor p))"

text \<open>\<open>lambda value: value * 2\<close>\<close>

definition transform_rating :: "pyval \<Rightarrow> py_error + pyval" where
  "transform_rating value = py_mul_int value 2"

text \<open>\<open>lambda value: json.dumps(value, indent=2)\<close>\<close>

definition transform_sidecar :: "externals \<Rightarrow> pyval \<Rightarrow> py_error + pyval" where
  "transform_sidecar ext value = Inr (PyStr (json_dumps ext value 2))"

definition COLUMNS :: "externals \<Rightarrow> field list" where
  "COLUMNS ext =
   [\<lparr>name = ''column_percent_read'',
     label = ''Percent read column (float):'',
     coltype = ''float'',
     sidecar_property = [''percent_finished''],
     transform = Some (transform_percent_read ext),
     combo = None\<rparr>,
    \<lparr>name = ''column_percent_read_int'',
     label = ''Percent read column (int):'',
     coltype = ''int'',
     sidecar_property = [''percent_finished''],
     transform = Some (transform_percent_read_int ext),
     combo = None\<rparr>,
    \<lparr>name = ''column_last_read_location'',
     label = ''Last read location column:'',
     coltype = ''text'',
     sidecar_property = [''last_xpointer''],
     transform = None,
     combo = None\<rparr>,
    \<lparr>name = ''column_rating'',
     label = ''Rating column:'',
     coltype = ''rating'',
     sidecar_property = [''summary'', ''rating''],
     transform = Some transform_rating,
     combo = None\<rparr>,
    \<lparr>name = ''column_review'',
     label = ''Review column:'',
     coltype = ''comments'',
     sidecar_property = [''summary'', ''note''],
     transform = None,
     combo = None\<rparr>,
    \<lparr>name = ''column_status'',
     label = ''Reading status column:'',
     coltype = ''text'',
     sidecar_property = [''summary'', ''status''],
     transform = None,
     combo = None\<rparr>,
    \<lparr>name = ''column_date_status_modified'',
     label = ''Status modified date column:'',
     coltype = ''datetime'',
     sidecar_property = [''summary'', ''modified''],
     transform = None,
     combo = None\<rparr>,
    \<lparr>name = ''column_bookmarks'',
     label = ''Bookmarks column'',
     coltype = ''comments'',
     sidecar_property = [''bookmarks''],
     transform = Some (clean_bookmarks ext),
     combo = None\<rparr>,
    \<lparr>name = ''column_md5'',
     label = ''MD5 hash column:'',
     coltype = ''text'',
     sidecar_property = [''partial_md5_checksum''],
     transform = None,
     combo = None\<rparr>,
    \<lparr>name = ''column_sidecar'',
     label = ''Raw sidecar column:'',
     coltype = ''comments'',
     sidecar_property = [],
     transform = Some (transform_sidecar ext),
     combo = None\<rparr>]"

section \<open>CONFIG\<close>

text \<open>
  The host's \<open>JSONConfig\<close>: a dict of stored values and a dict of defaults.
  \<open>CONFIG[k]\<close> is the stored value, else the default, else a \<open>KeyError\<close>;
  \<open>CONFIG[k] = v\<close> writes the stored dict.
\<close>

record json_config =
  stored :: "string pydict"
  defaults :: "string pydict"

definition config_get :: "json_config \<Rightarrow> string \<Rightarrow> py_error + string" where
  "config_get cfg k =
     (case map_of (stored cfg) k of Some v \<Rightarrow> Inr v | None \<Rightarrow> dict_get (defaults cfg) k)"

definition config_set :: "json_config \<Rightarrow> string \<Rightarrow> string \<Rightarrow> json_config" where
  "config_set cfg k v = cfg\<lparr>stored := dict_set (stored cfg) k v\<rparr>"

text \<open>
  The module's start: the config as loaded from its file, and
  \<open>for column in COLUMNS: CONFIG.defaults[column['name']] = ''\<close>.
\<close>

fun set_defaults :: "field list \<Rightarrow> json_config \<Rightarrow> json_config" where
  "set_defaults [] cfg = cfg"
| "set_defaults (column # rest) cfg =
     set_defaults rest (cfg\<lparr>defaults := dict_set (defaults cfg) (name column) ''''\<rparr>)"

definition CONFIG :: "externals \<Rightarrow> string pydict \<Rightarrow> json_config" where
  "CONFIG ext loaded = set_defaults (COLUMNS ext) \<lparr>stored = loaded, defaults = []\<rparr>"

section \<open>CustomColumnsLayout\<close>

text \<open>
  What the layout reads of the host's library model: \<open>custom_columns\<close> and
  \<open>orig_headers\<close>.
\<close>

record library_model =
  custom_columns :: "column pydict"
  orig_headers :: "string pydict"

text \<open>The loop of \<open>get_custom_columns\<close> over \<open>custom_columns.items()\<close>.\<close>

fun custom_columns_loop ::
  "string list \<Rightarrow> (string \<times> column) list \<Rightarrow> column pydict \<Rightarrow> py_error + column pydict" where
  "custom_columns_loop column_types [] available_columns = Inr available_columns"
| "custom_columns_loop column_types ((key, column) # rest) available_columns =
     (case col_datatype column of
        None \<Rightarrow> Inl (KeyError ''datatype'')
      | Some type' \<Rightarrow>
         (if type' \<in> set column_types then
            (case col_is_multiple column of
               None \<Rightarrow> Inl (KeyError ''is_multiple'')
             | Some multiple \<Rightarrow>
                (if \<not> multiple
                 then custom_columns_loop column_types rest (dict_set available_columns key column)
                 else custom_columns_loop column_types rest available_columns))
          else custom_columns_loop column_types rest available_columns))"

definition get_custom_columns :: "library_model \<Rightarrow> string list \<Rightarrow> py_error + column pydict" where
  "get_custom_columns model column_types =
     custom_columns_loop column_types (custom_columns model) []"

definition get_rating_columns :: "library_model \<Rightarrow> py_error + column pydict" where
  "get_rating_columns model =
     (case get_custom_columns model [''rating''] of
        Inl e \<Rightarrow> Inl e
      | Inr rating_columns \<Rightarrow>
         (case dict_get (orig_headers model) ''rating'' of
            Inl e \<Rightarrow> Inl e
          | Inr rating_column_name \<Rightarrow>
             Inr (dict_set rating_columns ''rating''
                    \<lparr>col_name = Some rating_column_name, col_datatype = None,
                     col_is_multiple = None\<rparr>)))"

text \<open>The dict \<open>available_columns\<close> of the constructor, its entries built in order.\<close>

definition get_available_columns :: "library_model \<Rightarrow> py_error + column pydict pydict" where
  "get_available_columns model =
     (case get_custom_columns model [''comments''] of Inl e \<Rightarrow> Inl e | Inr comments \<Rightarrow>
     (case get_custom_columns model [''datetime''] of Inl e \<Rightarrow> Inl e | Inr datetime \<Rightarrow>
     (case get_custom_columns model [''float''] of Inl e \<Rightarrow> Inl e | Inr float \<Rightarrow>
     (case get_custom_columns model [''int''] of Inl e \<Rightarrow> Inl e | Inr int' \<Rightarrow>
     (case get_rating_columns model of Inl e \<Rightarrow> Inl e | Inr rating \<Rightarrow>
     (case get_custom_columns model [''text''] of Inl e \<Rightarrow> Inl e | Inr text' \<Rightarrow>
        Inr [(''comments'', comments), (''datetime'', datetime), (''float'', float),
             (''int'', int'), (''rating'', rating), (''text'', text')]))))))"

text \<open>
  The loop of the constructor over \<open>COLUMNS\<close>: every entry gets its combo box, built
  from the available columns of its type and the configured value.
\<close>

fun add_combos ::
  "column pydict pydict \<Rightarrow> json_config \<Rightarrow> field list \<Rightarrow> py_error + field list" where
  "add_combos available_columns cfg [] = Inr []"
| "add_combos available_columns cfg (column # rest) =
     (case dict_get available_columns (coltype column) of Inl e \<Rightarrow> Inl e | Inr cols \<Rightarrow>
     (case config_get cfg (name column) of Inl e \<Rightarrow> Inl e | Inr selected \<Rightarrow>
     (case CustomColumnComboBox cols selected of Inl e \<Rightarrow> Inl e | Inr cb \<Rightarrow>
     (case add_combos available_columns cfg rest of Inl e \<Rightarrow> Inl e | Inr rest' \<Rightarrow>
        Inr (column\<lparr>combo := Some cb\<rparr> # rest')))))"

definition CustomColumnsLayout ::
  "library_model \<Rightarrow> json_config \<Rightarrow> field list \<Rightarrow> py_error + field list" where
  "CustomColumnsLayout model cfg columns =
     (case get_available_columns model of
        Inl e \<Rightarrow> Inl e
      | Inr available_columns \<Rightarrow> add_combos available_columns cfg columns)"

section \<open>ConfigWidget.save_settings\<close>

text \<open>
  \<open>for column in COLUMNS: CONFIG[column['name']] = column['combo'].get_selected_column()\<close>
\<close>

fun save_settings :: "field list \<Rightarrow> json_config \<Rightarrow> py_error + json_config" where
  "save_settings [] cfg = Inr cfg"
| "save_settings (column # rest) cfg =
     (case combo column of
        None \<Rightarrow> Inl (KeyError ''combo'')
      | Some cb \<Rightarrow>
         (case get_selected_column cb of
            Inl e \<Rightarrow> Inl e
          | Inr key \<Rightarrow> save_settings rest (config_set cfg (name column) key)))"

section \<open>Properties\<close>

subsection \<open>The vocabulary of the statements\<close>

text \<open>
  \<open>named_columns\<close>: every column of a dict has the key \<open>'name'\<close>. \<open>host_ok\<close>: what the
  code takes for granted of the host, namely that the keys of \<open>custom_columns\<close> are
  distinct (it is a dict), that every custom column has the keys \<open>'name'\<close>,
  \<open>'datatype'\<close> and \<open>'is_multiple'\<close>, and that \<open>orig_headers\<close> has the key \<open>'rating'\<close>.
  \<open>apply_choices\<close>: the user picks an item in the combo boxes of some fields (given by
  name); picking item \<open>i\<close> makes \<open>i\<close> the current index. \<open>float_literal\<close>: the float a
  decimal literal denotes, its value rounded to binary64. \<open>repr_on_one_line\<close>: \<open>repr\<close>
  of a float has no newline. \<open>indent2\<close>: a text with two spaces added after each of its
  newlines. \<open>join\<close>: \<open>sep.join(strings)\<close>.
\<close>

definition named_columns :: "column pydict \<Rightarrow> bool" where
  "named_columns cc = list_all (\<lambda>(key, col). col_name col \<noteq> None) cc"

definition host_columns_ok :: "column pydict \<Rightarrow> bool" where
  "host_columns_ok cc =
     list_all (\<lambda>(key, col). col_name col \<noteq> None \<and> col_datatype col \<noteq> None
                              \<and> col_is_multiple col \<noteq> None) cc"

definition host_ok :: "library_model \<Rightarrow> bool" where
  "host_ok model \<longleftrightarrow>
     distinct (dict_keys (custom_columns model))
     \<and> host_columns_ok (custom_columns model)
     \<and> map_of (orig_headers model) ''rating'' \<noteq> None"

definition apply_choices :: "(string \<Rightarrow> int option) \<Rightarrow> field list \<Rightarrow> field list" where
  "apply_choices choice fs =
     map (\<lambda>f. case choice (name f) of
                 None \<Rightarrow> f
               | Some i \<Rightarrow> f\<lparr>combo := map_option (\<lambda>cb. setCurrentIndex cb i) (combo f)\<rparr>) fs"

definition float_literal :: "rat \<Rightarrow> double" where
  "float_literal q =
     (case round_double \<bar>q\<bar> of None \<Rightarrow> Infinity (q < 0) | Some m \<Rightarrow> Finite (q < 0) m)"


definition indent2 :: "string \<Rightarrow> string" where
  "indent2 s = concat (map (\<lambda>c. if c = CHR 0x0A then [CHR 0x0A, CHR 0x20, CHR 0x20] else [c]) s)"


subsection \<open>Closed forms of the loops\<close>

text \<open>
  What the loops of the code compute, as terms the proofs work with.
  \<open>option_text\<close>: the text of the option of a key. \<open>selected_index\<close>: the value of
  \<open>selected_idx\<close> after the loop over the given keys, started with \<open>n\<close> entries in
  \<open>column_names\<close>. \<open>combo_of\<close>: the combo box \<open>populate_combo\<close> leaves. \<open>eligible\<close>: the
  test of \<open>get_custom_columns\<close> on one column. \<open>available_of\<close>: the dict
  \<open>available_columns\<close> of the layout, and \<open>bucket\<close> its entry for a type.
  \<open>with_combo\<close>: an entry of \<open>COLUMNS\<close> after the layout, and \<open>chosen\<close> after the user's
  pick. \<open>selected_key\<close> and \<open>written\<close>: what \<open>get_selected_column\<close> returns for a field,
  which is what \<open>save_settings\<close> stores. \<open>config_ready\<close>: the defaults cover the names
  of the fields.
\<close>

definition option_text :: "column pydict \<Rightarrow> string \<Rightarrow> string" where
  "option_text cc key =
     (case map_of cc key of
        None \<Rightarrow> []
      | Some col \<Rightarrow> (case col_name col of None \<Rightarrow> [] | Some nm \<Rightarrow> display_name nm key))"

fun selected_index :: "string \<Rightarrow> string list \<Rightarrow> nat \<Rightarrow> int \<Rightarrow> int" where
  "selected_index sel [] n idx = idx"
| "selected_index sel (key # keys) n idx =
     selected_index sel keys (Suc n) (if key = sel then int n else idx)"

definition combo_of :: "column pydict \<Rightarrow> string \<Rightarrow> combo_box" where
  "combo_of cols sel =
     \<lparr>column_names = '''' # sort (dict_keys cols),
      items = ''do not sync'' # map (option_text cols) (sort (dict_keys cols)),
      currentIndex = selected_index sel (sort (dict_keys cols)) 1 0\<rparr>"

definition eligible :: "string list \<Rightarrow> string \<times> column \<Rightarrow> bool" where
  "eligible column_types kc =
     ((case col_datatype (snd kc) of None \<Rightarrow> False | Some t \<Rightarrow> t \<in> set column_types)
      \<and> col_is_multiple (snd kc) = Some False)"

definition bucket :: "column pydict pydict \<Rightarrow> string \<Rightarrow> column pydict" where
  "bucket available_columns t = (case map_of available_columns t of None \<Rightarrow> [] | Some cols \<Rightarrow> cols)"

definition config_value :: "json_config \<Rightarrow> string \<Rightarrow> string" where
  "config_value cfg k = (case config_get cfg k of Inl e \<Rightarrow> [] | Inr v \<Rightarrow> v)"

definition builtin_rating :: "library_model \<Rightarrow> column" where
  "builtin_rating model =
     \<lparr>col_name = map_of (orig_headers model) ''rating'', col_datatype = None,
      col_is_multiple = None\<rparr>"

definition available_of :: "library_model \<Rightarrow> column pydict pydict" where
  "available_of model =
     [(''comments'', filter (eligible [''comments'']) (custom_columns model)),
      (''datetime'', filter (eligible [''datetime'']) (custom_columns model)),
      (''float'', filter (eligible [''float'']) (custom_columns model)),
      (''int'', filter (eligible [''int'']) (custom_columns model)),
      (''rating'', dict_set (filter (eligible [''rating'']) (custom_columns model))
                     ''rating'' (builtin_rating model)),
      (''text'', filter (eligible [''text'']) (custom_columns model))]"

definition selected_key :: "field \<Rightarrow> string option" where
  "selected_key f =
     (case combo f of
        None \<Rightarrow> None
      | Some cb \<Rightarrow> (case get_selected_column cb of Inl e \<Rightarrow> None | Inr key \<Rightarrow> Some key))"

definition written :: "field \<Rightarrow> string" where
  "written f = (case selected_key f of None \<Rightarrow> [] | Some key \<Rightarrow> key)"

definition config_ready :: "field list \<Rightarrow> json_config \<Rightarrow> bool" where
  "config_ready fs cfg = list_all (\<lambda>f. map_of (defaults cfg) (name f) \<noteq> None) fs"

definition chosen :: "(string \<Rightarrow> int option) \<Rightarrow> field \<Rightarrow> field" where
  "chosen choice f =
     (case choice (name f) of
        None \<Rightarrow> f
      | Some i \<Rightarrow> f\<lparr>combo := map_option (\<lambda>cb. setCurrentIndex cb i) (combo f)\<rparr>)"

definition with_combo :: "library_model \<Rightarrow> json_config \<Rightarrow> field \<Rightarrow> field" where
  "with_combo model cfg f =
     f\<lparr>combo := Some (combo_of (bucket (available_of model) (coltype f))
                                (config_value cfg (name f)))\<rparr>"

subsection \<open>An example library\<close>

text \<open>
  A library with two single-valued text columns, a multi-valued one and a rating
  column; a stored config with an entry for a field that is no longer in \<open>COLUMNS\<close> and
  one that names a column the library no longer has; and two libraries for the rating
  columns: one whose custom column has the key \<open>rating\<close>, one without custom columns.
\<close>

definition example_ext :: externals where
  "example_ext =
     \<lparr>clean_bookmarks = (\<lambda>value. Inr value),
      float_of_str = (\<lambda>s. Inl ValueError),
      float_repr = (\<lambda>s m. ''0.0'')\<rparr>"

definition example_model :: library_model where
  "example_model =
     \<lparr>custom_columns =
        [(''#where'', \<lparr>col_name = Some ''Where'', col_datatype = Some ''text'',
                       col_is_multiple = Some False\<rparr>),
         (''#tags2'', \<lparr>col_name = Some ''More tags'', col_datatype = Some ''text'',
                       col_is_multiple = Some True\<rparr>),
         (''#state'', \<lparr>col_name = Some ''State'', col_datatype = Some ''text'',
                       col_is_multiple = Some False\<rparr>),
         (''#stars'', \<lparr>col_name = Some ''Stars'', col_datatype = Some ''rating'',
                       col_is_multiple = Some False\<rparr>)],
      orig_headers = [(''title'', ''Title''), (''rating'', ''Rating'')]\<rparr>"

definition example_choice :: "string \<Rightarrow> int option" where
  "example_choice n = (if n = ''column_status'' then Some 2 else None)"

definition example_columns :: "column pydict" where
  "example_columns =
     [(''#where'', \<lparr>col_name = Some ''Where'', col_datatype = Some ''text'',
                    col_is_multiple = Some False\<rparr>),
      (''#state'', \<lparr>col_name = Some ''State'', col_datatype = Some ''text'',
                    col_is_multiple = Some False\<rparr>)]"

definition example_loaded :: "string pydict" where
  "example_loaded = [(''column_highlights'', ''#hl''), (''column_md5'', ''#gone'')]"

definition example_model_rating :: library_model where
  "example_model_rating =
     \<lparr>custom_columns =
        [(''rating'', \<lparr>col_name = Some ''My rating'', col_datatype = Some ''rating'',
                       col_is_multiple = Some False\<rparr>),
         (''#stars'', \<lparr>col_name = Some ''Stars'', col_datatype = Some ''rating'',
                       col_is_multiple = Some False\<rparr>)],
      orig_headers = [(''rating'', ''Rating'')]\<rparr>"

definition example_model_empty :: library_model where
  "example_model_empty = \<lparr>custom_columns = [], orig_headers = [(''rating'', ''Rating'')]\<rparr>"

subsection \<open>The combo box after populate_combo\<close>

lemma named_columns_lookup:
  assumes "named_columns cc" and "key \<in> set (dict_keys cc)"
  shows "\<exists>col nm. map_of cc key = Some col \<and> col_name col = Some nm"
proof -
  from assms(2) have "map_of cc key \<noteq> None"
    by (simp add: dict_keys_def map_of_eq_None_iff)
  then obtain col where c: "map_of cc key = Some col" by auto
  then have "(key, col) \<in> set cc" by (rule map_of_SomeD)
  with assms(1) have "col_name col \<noteq> None"
    by (auto simp: named_columns_def list_all_iff)
  with c show ?thesis by auto
qed

lemma populate_loop_closed:
  assumes "named_columns cc" and "set keys \<subseteq> set (dict_keys cc)" and "items cb \<noteq> []"
  shows "populate_loop cc sel keys cb idx =
     Inr (cb\<lparr>column_names := column_names cb @ keys,
             items := items cb @ map (option_text cc) keys\<rparr>,
          selected_index sel keys (length (column_names cb)) idx)"
  using assms(2,3)
proof (induction keys arbitrary: cb idx)
  case Nil
  then show ?case by simp
next
  case (Cons key keys)
  from Cons.prems(1) have "key \<in> set (dict_keys cc)" by simp
  with assms(1) obtain col nm where c: "map_of cc key = Some col" "col_name col = Some nm"
    using named_columns_lookup by blast
  let ?cb2 = "addItem (cb\<lparr>column_names := column_names cb @ [key]\<rparr>) (display_name nm key)"
  have i: "items ?cb2 \<noteq> []" by (simp add: addItem_def)
  have k: "set keys \<subseteq> set (dict_keys cc)" using Cons.prems(1) by simp
  have t: "option_text cc key = display_name nm key" by (simp add: option_text_def c)
  show ?case
    using Cons.prems(2)
    by (simp add: c dict_get_def Let_def Cons.IH [OF k i] t) (simp add: addItem_def)
qed

lemma selected_index_absent:
  "sel \<notin> set keys \<Longrightarrow> selected_index sel keys n idx = idx"
  by (induction keys arbitrary: n idx) auto

lemma selected_index_range:
  "idx < int n \<Longrightarrow> selected_index sel keys n idx < int (n + length keys)"
proof (induction keys arbitrary: n idx)
  case Nil
  then show ?case by simp
next
  case (Cons key keys)
  have "(if key = sel then int n else idx) < int (Suc n)"
    using Cons.prems by simp
  from Cons.IH [OF this] show ?case by simp
qed

lemma selected_index_lower:
  "0 \<le> idx \<Longrightarrow> 0 \<le> selected_index sel keys n idx"
  by (induction keys arbitrary: n idx) auto

lemma selected_index_present:
  "sel \<in> set keys \<Longrightarrow>
     int n \<le> selected_index sel keys n idx \<and>
     selected_index sel keys n idx < int (n + length keys) \<and>
     keys ! (nat (selected_index sel keys n idx) - n) = sel"
proof (induction keys arbitrary: n idx)
  case Nil
  then show ?case by simp
next
  case (Cons key keys)
  show ?case
  proof (cases "sel \<in> set keys")
    case True
    let ?r = "selected_index sel keys (Suc n) (if key = sel then int n else idx)"
    from Cons.IH [OF True, of "Suc n" "if key = sel then int n else idx"]
    have r: "int (Suc n) \<le> ?r" "?r < int (Suc n + length keys)"
      "keys ! (nat ?r - Suc n) = sel"
      by simp_all
    from r(1) have "nat ?r - n = Suc (nat ?r - Suc n)" by linarith
    with r show ?thesis by simp
  next
    case False
    with Cons.prems have "key = sel" by simp
    with False show ?thesis by (simp add: selected_index_absent)
  qed
qed

lemma populate_combo_closed:
  assumes "named_columns cc"
  shows "populate_combo self cc sel =
     Inr \<lparr>column_names = [] # sort (dict_keys cc),
          items = ''do not sync'' # map (option_text cc) (sort (dict_keys cc)),
          currentIndex = selected_index sel (sort (dict_keys cc)) 1 0\<rparr>"
proof -
  let ?keys = "sort (dict_keys cc)"
  let ?cb2 = "addItem ((clear self)\<lparr>column_names := ['''']\<rparr>) ''do not sync''"
  have "populate_loop cc sel ?keys ?cb2 0 =
     Inr (?cb2\<lparr>column_names := column_names ?cb2 @ ?keys,
             items := items ?cb2 @ map (option_text cc) ?keys\<rparr>,
          selected_index sel ?keys (length (column_names ?cb2)) 0)"
    by (rule populate_loop_closed [OF assms]) (simp_all add: addItem_def)
  moreover have "selected_index sel ?keys 1 0 < int (1 + length ?keys)"
    by (rule selected_index_range) simp
  moreover have "0 \<le> selected_index sel ?keys 1 0"
    by (rule selected_index_lower) simp
  ultimately show ?thesis
    by (simp add: populate_combo_def Let_def setCurrentIndex_def addItem_def clear_def)
qed

lemma display_name_not_do_not_sync: "display_name nm key \<noteq> ''do not sync''"
proof
  assume "display_name nm key = ''do not sync''"
  then have "last (display_name nm key) = last ''do not sync''" by simp
  then show False by (simp add: display_name_def)
qed

lemma option_text_named:
  assumes "named_columns cc" and "key \<in> set (dict_keys cc)"
  shows "\<exists>col nm. map_of cc key = Some col \<and> col_name col = Some nm \<and>
           option_text cc key = display_name nm key"
  using named_columns_lookup [OF assms] by (auto simp: option_text_def)

lemma do_not_sync_once:
  assumes "named_columns cc" and "set keys \<subseteq> set (dict_keys cc)"
  shows "count_list (map (option_text cc) keys) ''do not sync'' = 0"
  using assms(2)
proof (induction keys)
  case Nil
  then show ?case by simp
next
  case (Cons key keys)
  then have "key \<in> set (dict_keys cc)" by simp
  from option_text_named [OF assms(1) this] have "option_text cc key \<noteq> ''do not sync''"
    using display_name_not_do_not_sync by metis
  with Cons show ?case by simp
qed

text \<open>
  C3. For every dict of available columns, \<open>populate_combo\<close> leaves in \<open>column_names\<close>
  the empty string followed by the dict's keys in ascending order; the options are as
  many, the first is \<open>do not sync\<close> and no other option has that text; and the option
  after it at position \<open>i\<close> shows the name of the column of the \<open>i\<close>-th sorted key,
  a space, and that key in parentheses.
\<close>

theorem populate_combo_option_list:
  assumes "named_columns cols"
  shows "\<exists>cb. populate_combo self cols selected_column = Inr cb
     \<and> column_names cb = '''' # sort (dict_keys cols)
     \<and> length (items cb) = length (column_names cb)
     \<and> items cb ! 0 = ''do not sync''
     \<and> count_list (items cb) ''do not sync'' = 1
     \<and> (\<forall>i < length (dict_keys cols).
           \<exists>col nm. map_of cols (sort (dict_keys cols) ! i) = Some col
             \<and> col_name col = Some nm
             \<and> items cb ! Suc i
                 = nm @ '' ('' @ sort (dict_keys cols) ! i @ '')'')"
proof -
  let ?keys = "sort (dict_keys cols)"
  have k: "set ?keys \<subseteq> set (dict_keys cols)" by simp
  have "\<exists>col nm. map_of cols (?keys ! i) = Some col \<and> col_name col = Some nm
          \<and> map (option_text cols) ?keys ! i = nm @ '' ('' @ ?keys ! i @ '')''"
    if "i < length (dict_keys cols)" for i
  proof -
    from that have "?keys ! i \<in> set (dict_keys cols)"
      by (metis length_sort nth_mem set_sort)
    from option_text_named [OF assms this] that show ?thesis
      by (auto simp: display_name_def)
  qed
  then show ?thesis
    by (simp add: populate_combo_closed [OF assms] do_not_sync_once [OF assms k])
qed

theorem populate_combo_option_list_witness:
  "named_columns
     [(''#b'', \<lparr>col_name = Some ''B'', col_datatype = Some ''text'', col_is_multiple = Some False\<rparr>),
      (''#a'', \<lparr>col_name = Some ''A'', col_datatype = Some ''text'', col_is_multiple = Some False\<rparr>)]
   \<and> (\<exists>cb. populate_combo new_combo
         [(''#b'', \<lparr>col_name = Some ''B'', col_datatype = Some ''text'', col_is_multiple = Some False\<rparr>),
          (''#a'', \<lparr>col_name = Some ''A'', col_datatype = Some ''text'', col_is_multiple = Some False\<rparr>)]
         ''#b'' = Inr cb
       \<and> column_names cb = ['''', ''#a'', ''#b'']
       \<and> items cb ! 0 = ''do not sync''
       \<and> items cb ! Suc 0 = ''A (#a)''
       \<and> items cb ! Suc (Suc 0) = ''B (#b)'')"
proof -
  let ?cc = "[(''#b'', \<lparr>col_name = Some ''B'', col_datatype = Some ''text'', col_is_multiple = Some False\<rparr>),
      (''#a'', \<lparr>col_name = Some ''A'', col_datatype = Some ''text'', col_is_multiple = Some False\<rparr>)]"
  have h: "named_columns ?cc" by (simp add: named_columns_def)
  have s: "sort (dict_keys ?cc) = [''#a'', ''#b'']" by (simp add: dict_keys_def)
  from populate_combo_option_list [OF h, of new_combo "''#b''"]
  obtain cb where cb: "populate_combo new_combo ?cc ''#b'' = Inr cb"
    "column_names cb = '''' # sort (dict_keys ?cc)"
    "items cb ! 0 = ''do not sync''"
    "\<forall>i < length (dict_keys ?cc).
           \<exists>col nm. map_of ?cc (sort (dict_keys ?cc) ! i) = Some col
             \<and> col_name col = Some nm
             \<and> items cb ! Suc i = nm @ '' ('' @ sort (dict_keys ?cc) ! i @ '')''"
    by blast
  from cb(4) [rule_format, of 0] have i1: "items cb ! Suc 0 = ''A (#a)''"
    by (auto simp: dict_keys_def)
  from cb(4) [rule_format, of 1] have i2: "items cb ! Suc (Suc 0) = ''B (#b)''"
    by (auto simp: dict_keys_def)
  from h cb(1,2,3) i1 i2 s show ?thesis by simp
qed

subsection \<open>The available columns and the layout\<close>

lemma populate_combo_combo_of:
  "named_columns cols \<Longrightarrow> populate_combo self cols sel = Inr (combo_of cols sel)"
  by (simp add: populate_combo_closed combo_of_def)

lemma custom_columns_loop_closed:
  assumes "host_columns_ok cc"
  shows "custom_columns_loop types cc acc =
           Inr (fold (\<lambda>(key, col) a. dict_set a key col) (filter (eligible types) cc) acc)"
  using assms
proof (induction cc arbitrary: acc)
  case Nil
  then show ?case by simp
next
  case (Cons kc cc)
  obtain key col where kc: "kc = (key, col)" by (cases kc)
  from Cons.prems obtain t m where c: "col_datatype col = Some t" "col_is_multiple col = Some m"
    and r: "host_columns_ok cc"
    by (auto simp: host_columns_ok_def kc)
  show ?case by (simp add: kc c Cons.IH [OF r] eligible_def)
qed

lemma dict_set_new_key:
  "key \<notin> fst ` set d \<Longrightarrow> dict_set d key v = d @ [(key, v)]"
  unfolding dict_set_def by (induction d) auto

lemma fold_dict_set_distinct:
  assumes "distinct (map fst xs)" and "set (map fst xs) \<inter> set (map fst acc) = {}"
  shows "fold (\<lambda>(key, col) a. dict_set a key col) xs acc = acc @ xs"
  using assms
proof (induction xs arbitrary: acc)
  case Nil
  then show ?case by simp
next
  case (Cons kc xs)
  obtain key col where kc: "kc = (key, col)" by (cases kc)
  from Cons.prems have n: "key \<notin> fst ` set acc" by (auto simp: kc)
  then have u: "dict_set acc key col = acc @ [(key, col)]"
    by (rule dict_set_new_key)
  have "fold (\<lambda>(key, col) a. dict_set a key col) xs (acc @ [(key, col)]) = (acc @ [(key, col)]) @ xs"
    using Cons.prems by (intro Cons.IH) (auto simp: kc)
  then show ?case by (simp add: kc u)
qed

lemma get_custom_columns_closed:
  assumes "host_columns_ok (custom_columns model)" and "distinct (dict_keys (custom_columns model))"
  shows "get_custom_columns model types = Inr (filter (eligible types) (custom_columns model))"
proof -
  have "distinct (map fst (filter (eligible types) (custom_columns model)))"
    using assms(2) by (simp add: dict_keys_def distinct_map_filter)
  then show ?thesis
    by (simp add: get_custom_columns_def custom_columns_loop_closed [OF assms(1)]
        fold_dict_set_distinct)
qed

lemma host_columns_named: "host_columns_ok cc \<Longrightarrow> named_columns (filter P cc)"
  by (auto simp: host_columns_ok_def named_columns_def list_all_iff)

lemma named_columns_dict_set:
  "named_columns d \<Longrightarrow> col_name c \<noteq> None \<Longrightarrow> named_columns (dict_set d k c)"
  unfolding dict_set_def named_columns_def by (induction d) auto

lemma get_rating_columns_closed:
  assumes "host_ok model"
  shows "get_rating_columns model =
     Inr (dict_set (filter (eligible [''rating'']) (custom_columns model)) ''rating''
            (builtin_rating model))"
proof -
  from assms obtain nm where nm: "map_of (orig_headers model) ''rating'' = Some nm"
    by (auto simp: host_ok_def)
  from assms have "get_custom_columns model [''rating'']
      = Inr (filter (eligible [''rating'']) (custom_columns model))"
    by (simp add: host_ok_def get_custom_columns_closed)
  then show ?thesis
    by (simp add: get_rating_columns_def dict_get_def nm builtin_rating_def)
qed

lemma get_available_columns_closed:
  assumes "host_ok model"
  shows "get_available_columns model =
     Inr [(''comments'', filter (eligible [''comments'']) (custom_columns model)),
          (''datetime'', filter (eligible [''datetime'']) (custom_columns model)),
          (''float'', filter (eligible [''float'']) (custom_columns model)),
          (''int'', filter (eligible [''int'']) (custom_columns model)),
          (''rating'', dict_set (filter (eligible [''rating'']) (custom_columns model))
                         ''rating'' (builtin_rating model)),
          (''text'', filter (eligible [''text'']) (custom_columns model))]"
proof -
  from assms have g: "get_custom_columns model types
      = Inr (filter (eligible types) (custom_columns model))" for types
    by (simp add: host_ok_def get_custom_columns_closed)
  show ?thesis
    by (simp add: get_available_columns_def g get_rating_columns_closed [OF assms])
qed

lemma add_combos_closed:
  assumes "list_all (\<lambda>f. map_of available_columns (coltype f) \<noteq> None
                          \<and> named_columns (bucket available_columns (coltype f))) fs"
    and "list_all (\<lambda>f. \<exists>v. config_get cfg (name f) = Inr v) fs"
  shows "add_combos available_columns cfg fs =
     Inr (map (\<lambda>f. f\<lparr>combo := Some (combo_of (bucket available_columns (coltype f))
                                         (config_value cfg (name f)))\<rparr>) fs)"
  using assms
proof (induction fs)
  case Nil
  then show ?case by simp
next
  case (Cons f fs)
  from Cons.prems(1) obtain cols where c: "map_of available_columns (coltype f) = Some cols"
    and n: "named_columns cols"
    by (auto simp: bucket_def)
  from Cons.prems(2) obtain v where v: "config_get cfg (name f) = Inr v" by auto
  from Cons.prems have r: "add_combos available_columns cfg fs =
     Inr (map (\<lambda>f. f\<lparr>combo := Some (combo_of (bucket available_columns (coltype f))
                                         (config_value cfg (name f)))\<rparr>) fs)"
    by (intro Cons.IH) simp_all
  show ?case
    by (simp add: c v r dict_get_def CustomColumnComboBox_def populate_combo_combo_of [OF n]
        bucket_def config_value_def)
qed

lemma get_available_columns_available_of:
  "host_ok model \<Longrightarrow> get_available_columns model = Inr (available_of model)"
  by (simp add: get_available_columns_closed available_of_def)

lemma available_of_named:
  assumes "host_ok model"
  shows "named_columns (bucket (available_of model) t)"
proof -
  from assms have h: "host_columns_ok (custom_columns model)"
    and r: "col_name (builtin_rating model) \<noteq> None"
    by (auto simp: host_ok_def builtin_rating_def)
  have e: "named_columns []" by (simp add: named_columns_def)
  show ?thesis
    by (simp add: bucket_def available_of_def host_columns_named [OF h]
        named_columns_dict_set [OF host_columns_named [OF h] r] e)
qed

lemma COLUMNS_types:
  "list_all (\<lambda>f. map_of (available_of model) (coltype f) \<noteq> None) (COLUMNS ext)"
  by (simp add: COLUMNS_def available_of_def)

lemma set_defaults_stored: "stored (set_defaults fs cfg) = stored cfg"
  by (induction fs arbitrary: cfg) simp_all

lemma set_defaults_defaults:
  "map_of (defaults (set_defaults fs cfg)) k =
     (if k \<in> name ` set fs then Some [] else map_of (defaults cfg) k)"
  by (induction fs arbitrary: cfg) (auto simp: dict_set_def update_conv')

lemma config_get_total:
  "map_of (defaults cfg) k \<noteq> None \<Longrightarrow> \<exists>v. config_get cfg k = Inr v"
  by (auto simp: config_get_def dict_get_def split: option.splits)

lemma CONFIG_ready: "config_ready (COLUMNS ext) (CONFIG ext loaded)"
  by (simp add: config_ready_def CONFIG_def set_defaults_defaults list_all_iff)

lemma layout_closed:
  assumes "host_ok model" and "config_ready (COLUMNS ext) cfg"
  shows "CustomColumnsLayout model cfg (COLUMNS ext) =
     Inr (map (\<lambda>f. f\<lparr>combo := Some (combo_of (bucket (available_of model) (coltype f))
                                         (config_value cfg (name f)))\<rparr>) (COLUMNS ext))"
proof -
  have a: "list_all (\<lambda>f. map_of (available_of model) (coltype f) \<noteq> None
                          \<and> named_columns (bucket (available_of model) (coltype f))) (COLUMNS ext)"
    using COLUMNS_types [of model ext] available_of_named [OF assms(1)]
    by (simp add: list_all_iff)
  have b: "list_all (\<lambda>f. \<exists>v. config_get cfg (name f) = Inr v) (COLUMNS ext)"
    using assms(2) config_get_total by (auto simp: config_ready_def list_all_iff)
  show ?thesis
    by (simp add: CustomColumnsLayout_def get_available_columns_available_of [OF assms(1)]
        add_combos_closed [OF a b])
qed

subsection \<open>The selected column and the saved config\<close>

lemma get_selected_column_combo_of:
  "get_selected_column (combo_of cols sel) =
     Inr (if sel \<in> set (dict_keys cols) then sel else [])"
proof (cases "sel \<in> set (sort (dict_keys cols))")
  case True
  let ?keys = "sort (dict_keys cols)"
  let ?r = "selected_index sel ?keys 1 0"
  from selected_index_present [OF True, of 1 0]
  have r: "1 \<le> ?r" "?r < int (1 + length ?keys)" "?keys ! (nat ?r - 1) = sel"
    by simp_all
  from r(1) have "([] # ?keys) ! nat ?r = ?keys ! (nat ?r - 1)"
    by (simp add: nth_Cons split: nat.splits)
  with r True show ?thesis
    by (simp add: get_selected_column_def combo_of_def list_index_def)
next
  case False
  then show ?thesis
    by (simp add: get_selected_column_def combo_of_def list_index_def selected_index_absent)
qed

lemma combo_of_index_range:
  "0 \<le> currentIndex (combo_of cols sel) \<and>
   currentIndex (combo_of cols sel) < int (length (items (combo_of cols sel)))"
proof -
  have "selected_index sel (sort (dict_keys cols)) 1 0 < int (1 + length (sort (dict_keys cols)))"
    by (rule selected_index_range) simp
  moreover have "0 \<le> selected_index sel (sort (dict_keys cols)) 1 0"
    by (rule selected_index_lower) simp
  ultimately show ?thesis by (simp add: combo_of_def)
qed

lemma get_selected_column_choice:
  "\<exists>key. get_selected_column (setCurrentIndex (combo_of cols sel) i) = Inr key
        \<and> (key = [] \<or> key \<in> set (dict_keys cols))
        \<and> (0 \<le> i \<and> i < int (length (items (combo_of cols sel)))
             \<longrightarrow> key = column_names (combo_of cols sel) ! nat i)"
proof (cases "0 \<le> i \<and> i < int (length (items (combo_of cols sel)))")
  case True
  let ?names = "[] # sort (dict_keys cols)"
  from True have l: "nat i < length ?names" by (auto simp: combo_of_def)
  then have "?names ! nat i \<in> set ?names" by (rule nth_mem)
  then have "?names ! nat i = [] \<or> ?names ! nat i \<in> set (dict_keys cols)" by auto
  with True show ?thesis
    by (simp add: get_selected_column_def setCurrentIndex_def combo_of_def list_index_def)
next
  case False
  let ?names = "[] # sort (dict_keys cols)"
  have "?names ! length (sort (dict_keys cols)) \<in> set ?names"
    by (rule nth_mem) simp
  then have "?names ! length (dict_keys cols) = [] \<or> ?names ! length (dict_keys cols) \<in> set (dict_keys cols)"
    by auto
  with False show ?thesis
    by (auto simp add: get_selected_column_def setCurrentIndex_def combo_of_def list_index_def)
qed

lemma save_settings_closed:
  assumes "list_all (\<lambda>f. selected_key f \<noteq> None) fs"
  shows "save_settings fs cfg = Inr (fold (\<lambda>f c. config_set c (name f) (written f)) fs cfg)"
  using assms
proof (induction fs arbitrary: cfg)
  case Nil
  then show ?case by simp
next
  case (Cons f fs)
  from Cons.prems obtain cb key where c: "combo f = Some cb" "get_selected_column cb = Inr key"
    by (auto simp: selected_key_def split: option.splits sum.splits)
  then have w: "written f = key" by (simp add: written_def selected_key_def)
  from Cons.prems have "list_all (\<lambda>f. selected_key f \<noteq> None) fs" by simp
  from Cons.IH [OF this] show ?case by (simp add: c w)
qed

lemma fold_config_set_defaults:
  "defaults (fold (\<lambda>f c. config_set c (name f) (written f)) fs cfg) = defaults cfg"
  by (induction fs arbitrary: cfg) (simp_all add: config_set_def)

lemma fold_config_set_other:
  "k \<notin> name ` set fs \<Longrightarrow>
   map_of (stored (fold (\<lambda>f c. config_set c (name f) (written f)) fs cfg)) k = map_of (stored cfg) k"
  by (induction fs arbitrary: cfg) (simp_all add: config_set_def dict_set_def update_conv')

lemma fold_config_set_written:
  "distinct (map name fs) \<Longrightarrow> f \<in> set fs \<Longrightarrow>
   map_of (stored (fold (\<lambda>f c. config_set c (name f) (written f)) fs cfg)) (name f) = Some (written f)"
proof (induction fs arbitrary: cfg)
  case Nil
  then show ?case by simp
next
  case (Cons g fs)
  show ?case
  proof (cases "f \<in> set fs")
    case True
    with Cons show ?thesis by simp
  next
    case False
    with Cons.prems have fg: "f = g" and n: "name g \<notin> name ` set fs" by auto
    have "map_of (stored (fold (\<lambda>f c. config_set c (name f) (written f)) fs
                            (config_set cfg (name g) (written g)))) (name g)
          = map_of (stored (config_set cfg (name g) (written g))) (name g)"
      using n by (rule fold_config_set_other)
    then show ?thesis
      by (simp add: fg config_set_def dict_set_def update_conv')
  qed
qed

lemma apply_choices_map: "apply_choices choice fs = map (chosen choice) fs"
  by (simp add: apply_choices_def chosen_def)

lemma layout_with_combo:
  assumes "host_ok model" and "config_ready (COLUMNS ext) cfg"
  shows "CustomColumnsLayout model cfg (COLUMNS ext) = Inr (map (with_combo model cfg) (COLUMNS ext))"
  using layout_closed [OF assms] by (simp add: with_combo_def [abs_def])

lemma chosen_with_combo:
  "name (chosen choice (with_combo model cfg f)) = name f
   \<and> coltype (chosen choice (with_combo model cfg f)) = coltype f
   \<and> (\<exists>key. selected_key (chosen choice (with_combo model cfg f)) = Some key
         \<and> (key = [] \<or> key \<in> set (dict_keys (bucket (available_of model) (coltype f)))))"
proof (cases "choice (name f)")
  case None
  then show ?thesis
    by (simp add: chosen_def with_combo_def selected_key_def get_selected_column_combo_of)
next
  case (Some i)
  from get_selected_column_choice
    [of "bucket (available_of model) (coltype f)" "config_value cfg (name f)" i]
  obtain key where "get_selected_column (setCurrentIndex
      (combo_of (bucket (available_of model) (coltype f)) (config_value cfg (name f))) i) = Inr key"
    "key = [] \<or> key \<in> set (dict_keys (bucket (available_of model) (coltype f)))"
    by blast
  with Some show ?thesis
    by (simp add: chosen_def with_combo_def selected_key_def)
qed

lemma chosen_all_selected:
  "list_all (\<lambda>f. selected_key f \<noteq> None) (map (chosen choice \<circ> with_combo model cfg) fs)"
  using chosen_with_combo by (simp add: list_all_iff) fastforce

lemma COLUMNS_distinct: "distinct (map name (COLUMNS ext))"
  by (simp add: COLUMNS_def)

lemma save_after_choices:
  assumes "host_ok model" and "config_ready (COLUMNS ext) cfg"
  shows "\<exists>opened. CustomColumnsLayout model cfg (COLUMNS ext) = Inr opened
     \<and> opened = map (with_combo model cfg) (COLUMNS ext)
     \<and> save_settings (apply_choices choice opened) cfg' =
          Inr (fold (\<lambda>f c. config_set c (name f) (written f))
                 (map (chosen choice \<circ> with_combo model cfg) (COLUMNS ext)) cfg')"
  using layout_with_combo [OF assms] chosen_all_selected [of choice model cfg "COLUMNS ext"]
  by (simp add: apply_choices_map save_settings_closed)

lemma example_model_ok: "host_ok example_model"
  by (auto simp: host_ok_def host_columns_ok_def example_model_def dict_keys_def)

text \<open>
  C2. When the configured value is not a key of the dict of available columns,
  \<open>populate_combo\<close> raises nothing, makes index 0 current, and that option is
  \<open>do not sync\<close> with the key \<open>''\<close>. And whatever the stored config holds, the layout
  of the editor is built without an exception: every entry of \<open>COLUMNS\<close> gets its
  combo box.
\<close>

theorem stale_key_falls_back:
  "(named_columns cols \<longrightarrow> S \<notin> set (dict_keys cols) \<longrightarrow>
      (\<exists>cb. populate_combo self cols S = Inr cb
         \<and> currentIndex cb = 0
         \<and> items cb ! 0 = ''do not sync''
         \<and> get_selected_column cb = Inr ''''))
   \<and> (host_ok model \<longrightarrow>
      (\<exists>opened. CustomColumnsLayout model (CONFIG ext loaded) (COLUMNS ext) = Inr opened
         \<and> map name opened = map name (COLUMNS ext)
         \<and> list_all (\<lambda>f. combo f \<noteq> None) opened))"
proof (intro conjI impI)
  assume n: "named_columns cols" and s: "S \<notin> set (dict_keys cols)"
  have "currentIndex (combo_of cols S) = 0"
    using s by (simp add: combo_of_def selected_index_absent)
  moreover have "items (combo_of cols S) ! 0 = ''do not sync''"
    by (simp add: combo_of_def)
  moreover have "get_selected_column (combo_of cols S) = Inr ''''"
    using s by (simp add: get_selected_column_combo_of)
  ultimately show "\<exists>cb. populate_combo self cols S = Inr cb
         \<and> currentIndex cb = 0
         \<and> items cb ! 0 = ''do not sync''
         \<and> get_selected_column cb = Inr ''''"
    by (simp add: populate_combo_combo_of [OF n])
next
  assume h: "host_ok model"
  have "map name (map (with_combo model (CONFIG ext loaded)) (COLUMNS ext)) = map name (COLUMNS ext)"
    by (simp add: with_combo_def)
  moreover have "list_all (\<lambda>f. combo f \<noteq> None)
      (map (with_combo model (CONFIG ext loaded)) (COLUMNS ext))"
    by (simp add: list_all_iff with_combo_def)
  ultimately show "\<exists>opened. CustomColumnsLayout model (CONFIG ext loaded) (COLUMNS ext) = Inr opened
         \<and> map name opened = map name (COLUMNS ext)
         \<and> list_all (\<lambda>f. combo f \<noteq> None) opened"
    using layout_with_combo [OF h CONFIG_ready] by simp
qed

theorem stale_key_falls_back_witness:
  "named_columns (filter (eligible [''text'']) (custom_columns example_model))
   \<and> ''#deleted'' \<notin> set (dict_keys (filter (eligible [''text'']) (custom_columns example_model)))
   \<and> (\<exists>cb. populate_combo new_combo (filter (eligible [''text'']) (custom_columns example_model))
               ''#deleted'' = Inr cb
         \<and> currentIndex cb = 0 \<and> get_selected_column cb = Inr '''')
   \<and> host_ok example_model
   \<and> (\<exists>opened. CustomColumnsLayout example_model
                    (CONFIG example_ext [(''column_status'', ''#deleted'')])
                    (COLUMNS example_ext) = Inr opened
         \<and> length opened = 10)"
proof -
  let ?cols = "filter (eligible [''text'']) (custom_columns example_model)"
  have n: "named_columns ?cols"
    by (simp add: named_columns_def eligible_def example_model_def)
  have s: "''#deleted'' \<notin> set (dict_keys ?cols)"
    by (simp add: dict_keys_def eligible_def example_model_def)
  note t = stale_key_falls_back [of ?cols "''#deleted''" new_combo example_model example_ext
      "[(''column_status'', ''#deleted'')]"]
  from t n s have a: "\<exists>cb. populate_combo new_combo ?cols ''#deleted'' = Inr cb
         \<and> currentIndex cb = 0 \<and> get_selected_column cb = Inr ''''"
    by blast
  from t example_model_ok obtain opened where o: "CustomColumnsLayout example_model
       (CONFIG example_ext [(''column_status'', ''#deleted'')]) (COLUMNS example_ext) = Inr opened"
     "map name opened = map name (COLUMNS example_ext)"
    by blast
  from o(2) have "length opened = length (COLUMNS example_ext)" by (rule map_eq_imp_length_eq)
  then have "length opened = 10" by (simp add: COLUMNS_def)
  with n s a example_model_ok o(1) show ?thesis by blast
qed

lemma bucket_dict_get:
  "dict_get available t = Inr cols \<Longrightarrow> bucket available t = cols"
  by (auto simp: dict_get_def bucket_def split: option.splits)

lemma COLUMNS_bucket:
  "f \<in> set (COLUMNS ext) \<Longrightarrow>
     dict_get (available_of model) (coltype f) = Inr (bucket (available_of model) (coltype f))"
  using COLUMNS_types [of model ext]
  by (auto simp: list_all_iff dict_get_def bucket_def split: option.splits)

text \<open>
  C10. After \<open>populate_combo\<close>, \<open>column_names\<close> has one entry per option and starts with
  \<open>''\<close>; for every valid index, \<open>get_selected_column\<close> returns the entry at that
  index, which is \<open>''\<close> or a key of the dict the box was populated from. Hence, after
  the layout is built and the user has picked any options, \<open>save_settings\<close> succeeds
  and the value it stores for every entry of \<open>COLUMNS\<close> is \<open>''\<close> or a key of the
  available columns of the entry's type.
\<close>

theorem selection_closure:
  "(named_columns cols \<longrightarrow>
      (\<exists>cb. populate_combo self cols sel = Inr cb
         \<and> length (column_names cb) = length (items cb)
         \<and> column_names cb ! 0 = ''''
         \<and> (\<forall>i. 0 \<le> i \<and> i < int (length (items cb)) \<longrightarrow>
               (\<exists>key. get_selected_column (setCurrentIndex cb i) = Inr key
                  \<and> key = column_names cb ! nat i
                  \<and> (key = '''' \<or> key \<in> set (dict_keys cols))))))
   \<and> (host_ok model \<longrightarrow>
      (\<exists>available opened cfg'.
         get_available_columns model = Inr available
         \<and> CustomColumnsLayout model (CONFIG ext loaded) (COLUMNS ext) = Inr opened
         \<and> save_settings (apply_choices choice opened) (CONFIG ext loaded) = Inr cfg'
         \<and> (\<forall>f \<in> set (COLUMNS ext).
               \<exists>key cols. map_of (stored cfg') (name f) = Some key
                  \<and> dict_get available (coltype f) = Inr cols
                  \<and> (key = '''' \<or> key \<in> set (dict_keys cols)))))"
proof (intro conjI impI)
  assume n: "named_columns cols"
  have "\<exists>key. get_selected_column (setCurrentIndex (combo_of cols sel) i) = Inr key
                  \<and> key = column_names (combo_of cols sel) ! nat i
                  \<and> (key = '''' \<or> key \<in> set (dict_keys cols))"
    if "0 \<le> i \<and> i < int (length (items (combo_of cols sel)))" for i
    using get_selected_column_choice [of cols sel i] that by auto
  moreover have "length (column_names (combo_of cols sel)) = length (items (combo_of cols sel))"
    "column_names (combo_of cols sel) ! 0 = ''''"
    by (simp_all add: combo_of_def)
  ultimately show "\<exists>cb. populate_combo self cols sel = Inr cb
         \<and> length (column_names cb) = length (items cb)
         \<and> column_names cb ! 0 = ''''
         \<and> (\<forall>i. 0 \<le> i \<and> i < int (length (items cb)) \<longrightarrow>
               (\<exists>key. get_selected_column (setCurrentIndex cb i) = Inr key
                  \<and> key = column_names cb ! nat i
                  \<and> (key = '''' \<or> key \<in> set (dict_keys cols))))"
    by (simp add: populate_combo_combo_of [OF n])
next
  assume h: "host_ok model"
  let ?cfg = "CONFIG ext loaded"
  let ?fs = "map (chosen choice \<circ> with_combo model ?cfg) (COLUMNS ext)"
  let ?cfg' = "fold (\<lambda>f c. config_set c (name f) (written f)) ?fs ?cfg"
  from save_after_choices [OF h CONFIG_ready, of ext loaded choice ?cfg]
  have o: "CustomColumnsLayout model ?cfg (COLUMNS ext) = Inr (map (with_combo model ?cfg) (COLUMNS ext))"
    and s: "save_settings (apply_choices choice (map (with_combo model ?cfg) (COLUMNS ext))) ?cfg
              = Inr ?cfg'"
    by simp_all
  have d: "distinct (map name ?fs)"
    using COLUMNS_distinct [of ext] chosen_with_combo by (simp add: comp_def)
  have "\<exists>key cols. map_of (stored ?cfg') (name f) = Some key
                  \<and> dict_get (available_of model) (coltype f) = Inr cols
                  \<and> (key = '''' \<or> key \<in> set (dict_keys cols))"
    if f: "f \<in> set (COLUMNS ext)" for f
  proof -
    let ?g = "chosen choice (with_combo model ?cfg f)"
    from f have g: "?g \<in> set ?fs" by simp
    from chosen_with_combo [of choice model ?cfg f] obtain key where
      k: "name ?g = name f" "selected_key ?g = Some key"
        "key = [] \<or> key \<in> set (dict_keys (bucket (available_of model) (coltype f)))"
      by blast
    from fold_config_set_written [OF d g, of ?cfg] k
    have "map_of (stored ?cfg') (name f) = Some key" by (simp add: written_def)
    with k(3) COLUMNS_bucket [OF f, of model] show ?thesis by blast
  qed
  with o s get_available_columns_available_of [OF h]
  show "\<exists>available opened cfg'.
         get_available_columns model = Inr available
         \<and> CustomColumnsLayout model (CONFIG ext loaded) (COLUMNS ext) = Inr opened
         \<and> save_settings (apply_choices choice opened) (CONFIG ext loaded) = Inr cfg'
         \<and> (\<forall>f \<in> set (COLUMNS ext).
               \<exists>key cols. map_of (stored cfg') (name f) = Some key
                  \<and> dict_get available (coltype f) = Inr cols
                  \<and> (key = '''' \<or> key \<in> set (dict_keys cols)))"
    by blast
qed

lemma selected_index_distinct:
  assumes "distinct keys" and "j < length keys"
  shows "selected_index (keys ! j) keys n idx = int (n + j)"
proof -
  let ?r = "selected_index (keys ! j) keys n idx"
  from assms(2) have "keys ! j \<in> set keys" by simp
  from selected_index_present [OF this, of n idx]
  have r: "int n \<le> ?r" "?r < int (n + length keys)" "keys ! (nat ?r - n) = keys ! j"
    by simp_all
  from r(1,2) have "nat ?r - n < length keys" by linarith
  with r(3) assms have "nat ?r - n = j" by (simp add: nth_eq_iff_index_eq)
  with r(1) show ?thesis by linarith
qed

lemma available_of_distinct:
  assumes "host_ok model"
  shows "distinct (dict_keys (bucket (available_of model) t))"
proof -
  from assms have d: "distinct (map fst (filter P (custom_columns model)))" for P
    by (simp add: host_ok_def dict_keys_def distinct_map_filter)
  show ?thesis
    by (simp add: bucket_def available_of_def dict_keys_def d dict_set_def distinct_update)
qed

lemma config_ready_fold:
  "config_ready fs cfg \<Longrightarrow>
     config_ready fs (fold (\<lambda>f c. config_set c (name f) (written f)) gs cfg)"
  by (simp add: config_ready_def fold_config_set_defaults)

lemma config_value_stored:
  "map_of (stored cfg) k = Some v \<Longrightarrow> config_get cfg k = Inr v \<and> config_value cfg k = v"
  by (simp add: config_value_def config_get_def)

text \<open>
  C1. The editor is opened, the user picks the option at a valid index \<open>i\<close> of the
  combo box of a field, and the settings are saved: the config then holds that
  option's key under the field's name. Opened again on the same library with the saved
  config, the combo box of the field has the same options and its selected key is that
  key; unless the key is \<open>''\<close>, the current index is again \<open>i\<close>.
\<close>

theorem selection_round_trip:
  assumes "host_ok model"
    and "CustomColumnsLayout model (CONFIG ext loaded) (COLUMNS ext) = Inr opened"
    and "g \<in> set opened" and "combo g = Some cb"
    and "0 \<le> i" and "i < int (length (column_names cb))"
    and "choice (name g) = Some i"
  shows "\<exists>cfg' reopened g' cb'.
           save_settings (apply_choices choice opened) (CONFIG ext loaded) = Inr cfg'
         \<and> config_get cfg' (name g) = Inr (column_names cb ! nat i)
         \<and> CustomColumnsLayout model cfg' (COLUMNS ext) = Inr reopened
         \<and> g' \<in> set reopened \<and> name g' = name g \<and> combo g' = Some cb'
         \<and> column_names cb' = column_names cb \<and> items cb' = items cb
         \<and> get_selected_column cb' = Inr (column_names cb ! nat i)
         \<and> (column_names cb ! nat i \<noteq> '''' \<longrightarrow> currentIndex cb' = i)"
proof -
  let ?cfg = "CONFIG ext loaded"
  let ?fs = "map (chosen choice \<circ> with_combo model ?cfg) (COLUMNS ext)"
  let ?cfg' = "fold (\<lambda>f c. config_set c (name f) (written f)) ?fs ?cfg"
  from layout_with_combo [OF assms(1) CONFIG_ready, of ext loaded] assms(2)
  have o: "opened = map (with_combo model ?cfg) (COLUMNS ext)" by simp
  have s: "save_settings (apply_choices choice opened) ?cfg = Inr ?cfg'"
    unfolding o using chosen_all_selected [of choice model ?cfg "COLUMNS ext"]
    by (simp add: apply_choices_map save_settings_closed)
  from o assms(3) obtain f where f: "f \<in> set (COLUMNS ext)" and g: "g = with_combo model ?cfg f"
    by auto
  let ?B = "bucket (available_of model) (coltype f)"
  let ?keys = "sort (dict_keys ?B)"
  let ?K = "column_names cb ! nat i"
  from g assms(4) have cb: "cb = combo_of ?B (config_value ?cfg (name f))"
    by (simp add: with_combo_def)
  have nm: "name g = name f" by (simp add: g with_combo_def)
  have names: "column_names cb = [] # ?keys" by (simp add: cb combo_of_def)
  from assms(5,6) have len: "nat i < length ([] # ?keys)" unfolding names by linarith
  \<comment> \<open>what the save writes under the field's name\<close>
  have d: "distinct (map name ?fs)"
    using COLUMNS_distinct [of ext] chosen_with_combo by (simp add: comp_def)
  have gs: "chosen choice g \<in> set ?fs" using f g by simp
  from get_selected_column_choice [of ?B "config_value ?cfg (name f)" i] assms(5,6)
  have "get_selected_column (setCurrentIndex cb i) = Inr ?K"
    by (auto simp: cb combo_of_def)
  with assms(4,7) have "written (chosen choice g) = ?K"
    by (simp add: written_def selected_key_def chosen_def)
  moreover have "name (chosen choice g) = name f"
    using chosen_with_combo [of choice model ?cfg f] by (simp add: g)
  ultimately have st: "map_of (stored ?cfg') (name f) = Some ?K"
    using fold_config_set_written [OF d gs, of ?cfg] by simp
  \<comment> \<open>the editor opened again on the saved config\<close>
  have r: "config_ready (COLUMNS ext) ?cfg'"
    by (rule config_ready_fold) (rule CONFIG_ready)
  note re = layout_with_combo [OF assms(1) r]
  let ?g' = "with_combo model ?cfg' f"
  let ?cb' = "combo_of ?B ?K"
  have g': "?g' \<in> set (map (with_combo model ?cfg') (COLUMNS ext))" using f by simp
  have c': "combo ?g' = Some ?cb'"
    using config_value_stored [OF st] by (simp add: with_combo_def)
  have "?K \<in> set ([] # ?keys)" using len unfolding names by (rule nth_mem)
  then have sel: "get_selected_column ?cb' = Inr ?K"
    by (auto simp: get_selected_column_combo_of)
  have idx: "currentIndex ?cb' = i" if "?K \<noteq> []"
  proof -
    from that have "nat i \<noteq> 0" unfolding names by (cases "nat i") auto
    then obtain j where j: "nat i = Suc j" by (cases "nat i") auto
    with len have jl: "j < length ?keys" by simp
    have "distinct ?keys" using available_of_distinct [OF assms(1)] by simp
    from selected_index_distinct [OF this jl, of 1 0] j assms(5)
    show ?thesis by (simp add: combo_of_def names)
  qed
  show ?thesis
  proof (intro exI conjI)
    show "save_settings (apply_choices choice opened) ?cfg = Inr ?cfg'" by (rule s)
    show "config_get ?cfg' (name g) = Inr ?K"
      using config_value_stored [OF st] by (simp add: nm)
    show "CustomColumnsLayout model ?cfg' (COLUMNS ext)
            = Inr (map (with_combo model ?cfg') (COLUMNS ext))"
      by (rule re)
    show "?g' \<in> set (map (with_combo model ?cfg') (COLUMNS ext))" by (rule g')
    show "name ?g' = name g" by (simp add: nm with_combo_def)
    show "combo ?g' = Some ?cb'" by (rule c')
    show "column_names ?cb' = column_names cb" by (simp add: cb combo_of_def)
    show "items ?cb' = items cb" by (simp add: cb combo_of_def)
    show "get_selected_column ?cb' = Inr ?K" by (rule sel)
    show "?K \<noteq> '''' \<longrightarrow> currentIndex ?cb' = i" using idx by simp
  qed
qed

lemma example_columns_named: "named_columns example_columns"
  by (simp add: named_columns_def example_columns_def)

lemma example_populate:
  "populate_combo new_combo example_columns ''#state'' =
     Inr \<lparr>column_names = ['''', ''#state'', ''#where''],
          items = [''do not sync'', ''State (#state)'', ''Where (#where)''],
          currentIndex = 1\<rparr>"
  by code_simp

lemma example_text_bucket:
  "bucket (available_of example_model) ''text'' = example_columns"
  by (simp add: bucket_def available_of_def eligible_def example_model_def example_columns_def)

lemma example_save:
  "(case CustomColumnsLayout example_model (CONFIG example_ext example_loaded)
           (COLUMNS example_ext) of
      Inl e \<Rightarrow> Inl e
    | Inr opened \<Rightarrow>
        map_sum id stored
          (save_settings (apply_choices example_choice opened)
             (CONFIG example_ext example_loaded)))
   = Inr [(''column_highlights'', ''#hl''), (''column_md5'', ''''),
          (''column_percent_read'', ''''), (''column_percent_read_int'', ''''),
          (''column_last_read_location'', ''''), (''column_rating'', ''''),
          (''column_review'', ''''), (''column_status'', ''#where''),
          (''column_date_status_modified'', ''''), (''column_bookmarks'', ''''),
          (''column_sidecar'', '''')]"
  by code_simp

theorem selection_closure_witness:
  "named_columns example_columns
   \<and> (\<exists>cb. populate_combo new_combo example_columns ''#state'' = Inr cb
         \<and> column_names cb = ['''', ''#state'', ''#where'']
         \<and> length (items cb) = 3
         \<and> get_selected_column (setCurrentIndex cb 2) = Inr ''#where'')
   \<and> host_ok example_model
   \<and> (\<exists>opened cfg'.
         CustomColumnsLayout example_model (CONFIG example_ext example_loaded)
           (COLUMNS example_ext) = Inr opened
         \<and> save_settings (apply_choices example_choice opened)
             (CONFIG example_ext example_loaded) = Inr cfg'
         \<and> map_of (stored cfg') ''column_status'' = Some ''#where''
         \<and> map_of (stored cfg') ''column_md5'' = Some '''')"
proof -
  note t = selection_closure [of example_columns new_combo "''#state''" example_model
      example_ext example_loaded example_choice]
  from t example_columns_named obtain cb where
    cb: "populate_combo new_combo example_columns ''#state'' = Inr cb"
      "length (column_names cb) = length (items cb)"
      "\<forall>i. 0 \<le> i \<and> i < int (length (items cb)) \<longrightarrow>
         (\<exists>key. get_selected_column (setCurrentIndex cb i) = Inr key
            \<and> key = column_names cb ! nat i
            \<and> (key = '''' \<or> key \<in> set (dict_keys example_columns)))"
    by blast
  from cb(1) have names: "column_names cb = ['''', ''#state'', ''#where'']"
    by (auto simp: example_populate)
  with cb(2) have len: "length (items cb) = 3" by simp
  with cb(3) [rule_format, of 2] names
  have pick: "get_selected_column (setCurrentIndex cb 2) = Inr ''#where''" by auto
  from t example_model_ok obtain opened cfg' where
    o: "CustomColumnsLayout example_model (CONFIG example_ext example_loaded)
          (COLUMNS example_ext) = Inr opened"
       "save_settings (apply_choices example_choice opened)
          (CONFIG example_ext example_loaded) = Inr cfg'"
    by blast
  with example_save have "stored cfg' =
        [(''column_highlights'', ''#hl''), (''column_md5'', ''''),
          (''column_percent_read'', ''''), (''column_percent_read_int'', ''''),
          (''column_last_read_location'', ''''), (''column_rating'', ''''),
          (''column_review'', ''''), (''column_status'', ''#where''),
          (''column_date_status_modified'', ''''), (''column_bookmarks'', ''''),
          (''column_sidecar'', '''')]"
    by simp
  then have "map_of (stored cfg') ''column_status'' = Some ''#where''"
    "map_of (stored cfg') ''column_md5'' = Some ''''"
    by simp_all
  with example_columns_named cb(1) names len pick example_model_ok o show ?thesis by blast
qed

theorem selection_round_trip_witness:
  "host_ok example_model
   \<and> (\<exists>opened g cb.
         CustomColumnsLayout example_model (CONFIG example_ext example_loaded)
           (COLUMNS example_ext) = Inr opened
         \<and> g \<in> set opened \<and> name g = ''column_status'' \<and> combo g = Some cb
         \<and> column_names cb = ['''', ''#state'', ''#where'']
         \<and> example_choice (name g) = Some 2
         \<and> (\<exists>cfg' reopened g' cb'.
               save_settings (apply_choices example_choice opened)
                 (CONFIG example_ext example_loaded) = Inr cfg'
             \<and> config_get cfg' ''column_status'' = Inr ''#where''
             \<and> CustomColumnsLayout example_model cfg' (COLUMNS example_ext) = Inr reopened
             \<and> g' \<in> set reopened \<and> name g' = ''column_status'' \<and> combo g' = Some cb'
             \<and> get_selected_column cb' = Inr ''#where''
             \<and> currentIndex cb' = 2))"
proof -
  let ?cfg = "CONFIG example_ext example_loaded"
  let ?opened = "map (with_combo example_model ?cfg) (COLUMNS example_ext)"
  let ?f = "COLUMNS example_ext ! 5"
  let ?g = "with_combo example_model ?cfg ?f"
  let ?cb = "combo_of example_columns (config_value ?cfg ''column_status'')"
  have f: "name ?f = ''column_status''" "coltype ?f = ''text''"
    by (simp_all add: COLUMNS_def)
  have o: "CustomColumnsLayout example_model ?cfg (COLUMNS example_ext) = Inr ?opened"
    by (rule layout_with_combo [OF example_model_ok CONFIG_ready])
  have "?f \<in> set (COLUMNS example_ext)" by (rule nth_mem) (simp add: COLUMNS_def)
  then have g: "?g \<in> set ?opened" by simp
  have n: "name ?g = ''column_status''" by (simp add: with_combo_def f)
  have c: "combo ?g = Some ?cb" by (simp add: with_combo_def f example_text_bucket)
  have names: "column_names ?cb = ['''', ''#state'', ''#where'']"
    by (simp add: combo_of_def example_columns_def dict_keys_def)
  have ch: "example_choice (name ?g) = Some 2" by (simp add: n example_choice_def)
  have i: "(0::int) \<le> 2" "2 < int (length (column_names ?cb))" by (simp_all add: names)
  from selection_round_trip [where choice = example_choice and i = 2,
      OF example_model_ok o g c i ch]
  obtain cfg' reopened g' cb' where r:
    "save_settings (apply_choices example_choice ?opened) ?cfg = Inr cfg'"
    "config_get cfg' (name ?g) = Inr (column_names ?cb ! nat 2)"
    "CustomColumnsLayout example_model cfg' (COLUMNS example_ext) = Inr reopened"
    "g' \<in> set reopened" "name g' = name ?g" "combo g' = Some cb'"
    "get_selected_column cb' = Inr (column_names ?cb ! nat 2)"
    "column_names ?cb ! nat 2 \<noteq> '''' \<longrightarrow> currentIndex cb' = 2"
    by blast
  have k: "column_names ?cb ! nat 2 = ''#where''" by (simp add: names)
  from r(2,5,7,8) have "config_get cfg' ''column_status'' = Inr ''#where''"
    "name g' = ''column_status''" "get_selected_column cb' = Inr ''#where''"
    "currentIndex cb' = 2"
    unfolding k n by simp_all
  with example_model_ok o g n c names ch r(1,3,4,6) show ?thesis by blast
qed

subsection \<open>Single-valued columns and the rating columns\<close>

lemma eligible_unfold:
  "eligible column_types = (\<lambda>(key, col). (\<exists>t \<in> set column_types. col_datatype col = Some t)
                                 \<and> col_is_multiple col = Some False)"
  by (auto simp: eligible_def fun_eq_iff split: option.splits)

lemma bucket_keys:
  assumes "host_ok model" and "f \<in> set (COLUMNS ext)"
    and "key \<in> set (dict_keys (bucket (available_of model) (coltype f)))"
  shows "(coltype f = ''rating'' \<and> key = ''rating'')
         \<or> (\<exists>col. map_of (custom_columns model) key = Some col
               \<and> col_datatype col = Some (coltype f)
               \<and> col_is_multiple col = Some False)"
proof -
  from assms(1) have d: "distinct (map fst (custom_columns model))"
    by (simp add: host_ok_def dict_keys_def)
  have e: "\<exists>col. map_of (custom_columns model) key = Some col
               \<and> col_datatype col = Some t \<and> col_is_multiple col = Some False"
    if "key \<in> fst ` set (filter (eligible [t]) (custom_columns model))" for t
  proof -
    from that obtain col where "(key, col) \<in> set (custom_columns model)" "eligible [t] (key, col)"
      by auto
    with d show ?thesis
      by (auto simp: eligible_def split: option.splits)
  qed
  show ?thesis
  proof (cases "coltype f = ''rating''")
    case True
    with assms(3) have "key = ''rating''
        \<or> key \<in> fst ` set (filter (eligible [''rating'']) (custom_columns model))"
      by (simp add: bucket_def available_of_def dict_keys_def dict_set_def dom_update
          del: set_filter)
    with e [of "''rating''"] True show ?thesis by auto
  next
    case False
    with assms(2) have "bucket (available_of model) (coltype f)
        = filter (eligible [coltype f]) (custom_columns model)"
      by (auto simp: COLUMNS_def bucket_def available_of_def)
    with assms(3) have "key \<in> fst ` set (filter (eligible [coltype f]) (custom_columns model))"
      by (simp add: dict_keys_def del: set_filter)
    from e [OF this] show ?thesis by simp
  qed
qed

text \<open>
  C4. On a host whose columns carry the keys the code reads, \<open>get_custom_columns\<close>
  returns the custom columns whose \<open>datatype\<close> is one of the requested types and whose
  \<open>is_multiple\<close> is false, in the host's order, and nothing else; no column with a true
  \<open>is_multiple\<close> is among them. In the editor, every key offered by the combo box of a
  field, after the first, is the key of a single-valued custom column of the field's
  type, or is \<open>rating\<close> in a field of type \<open>rating\<close> (the built-in column).
\<close>

theorem get_custom_columns_single_valued:
  assumes "host_ok model"
  shows "(\<exists>available. get_custom_columns model column_types = Inr available
           \<and> available = filter (\<lambda>(key, col). (\<exists>t \<in> set column_types. col_datatype col = Some t)
                                     \<and> col_is_multiple col = Some False) (custom_columns model)
           \<and> list_all (\<lambda>(key, col). col_is_multiple col \<noteq> Some True) available)
       \<and> (\<exists>opened. CustomColumnsLayout model (CONFIG ext loaded) (COLUMNS ext) = Inr opened
           \<and> list_all (\<lambda>g. \<exists>cb. combo g = Some cb
                \<and> list_all (\<lambda>key. (coltype g = ''rating'' \<and> key = ''rating'')
                      \<or> (\<exists>col. map_of (custom_columns model) key = Some col
                            \<and> col_datatype col = Some (coltype g)
                            \<and> col_is_multiple col = Some False))
                    (tl (column_names cb))) opened)"
proof (intro conjI)
  from assms have "get_custom_columns model column_types
      = Inr (filter (eligible column_types) (custom_columns model))"
    by (simp add: host_ok_def get_custom_columns_closed)
  then show "\<exists>available. get_custom_columns model column_types = Inr available
           \<and> available = filter (\<lambda>(key, col). (\<exists>t \<in> set column_types. col_datatype col = Some t)
                                     \<and> col_is_multiple col = Some False) (custom_columns model)
           \<and> list_all (\<lambda>(key, col). col_is_multiple col \<noteq> Some True) available"
    by (auto simp: eligible_unfold list_all_iff)
next
  let ?cfg = "CONFIG ext loaded"
  have "\<exists>cb. combo (with_combo model ?cfg f) = Some cb
          \<and> list_all (\<lambda>key. (coltype (with_combo model ?cfg f) = ''rating'' \<and> key = ''rating'')
                      \<or> (\<exists>col. map_of (custom_columns model) key = Some col
                            \<and> col_datatype col = Some (coltype (with_combo model ?cfg f))
                            \<and> col_is_multiple col = Some False))
                    (tl (column_names cb))"
    if f: "f \<in> set (COLUMNS ext)" for f
    using bucket_keys [OF assms f]
    by (simp add: with_combo_def combo_of_def list_all_iff)
  then show "\<exists>opened. CustomColumnsLayout model (CONFIG ext loaded) (COLUMNS ext) = Inr opened
           \<and> list_all (\<lambda>g. \<exists>cb. combo g = Some cb
                \<and> list_all (\<lambda>key. (coltype g = ''rating'' \<and> key = ''rating'')
                      \<or> (\<exists>col. map_of (custom_columns model) key = Some col
                            \<and> col_datatype col = Some (coltype g)
                            \<and> col_is_multiple col = Some False))
                    (tl (column_names cb))) opened"
    by (simp add: layout_with_combo [OF assms CONFIG_ready] list_all_iff)
qed

theorem get_custom_columns_single_valued_witness:
  "host_ok example_model
   \<and> get_custom_columns example_model [''text''] = Inr example_columns
   \<and> map_of (custom_columns example_model) ''#tags2''
       = Some \<lparr>col_name = Some ''More tags'', col_datatype = Some ''text'',
                col_is_multiple = Some True\<rparr>
   \<and> (\<exists>opened. CustomColumnsLayout example_model (CONFIG example_ext example_loaded)
                    (COLUMNS example_ext) = Inr opened
         \<and> list_all (\<lambda>g. \<exists>cb. combo g = Some cb \<and> ''#tags2'' \<notin> set (tl (column_names cb)))
              opened)"
proof -
  note t = get_custom_columns_single_valued [OF example_model_ok,
      of "[''text'']" example_ext example_loaded]
  have m: "map_of (custom_columns example_model) ''#tags2''
       = Some \<lparr>col_name = Some ''More tags'', col_datatype = Some ''text'',
                col_is_multiple = Some True\<rparr>"
    by (simp add: example_model_def)
  from t have a: "get_custom_columns example_model [''text''] = Inr example_columns"
    by (auto simp: example_model_def example_columns_def)
  from t obtain opened where o:
    "CustomColumnsLayout example_model (CONFIG example_ext example_loaded)
       (COLUMNS example_ext) = Inr opened"
    "list_all (\<lambda>g. \<exists>cb. combo g = Some cb
        \<and> list_all (\<lambda>key. (coltype g = ''rating'' \<and> key = ''rating'')
              \<or> (\<exists>col. map_of (custom_columns example_model) key = Some col
                    \<and> col_datatype col = Some (coltype g)
                    \<and> col_is_multiple col = Some False))
            (tl (column_names cb))) opened"
    by blast
  from o(2) m have "list_all (\<lambda>g. \<exists>cb. combo g = Some cb
      \<and> ''#tags2'' \<notin> set (tl (column_names cb))) opened"
    by (fastforce simp: list_all_iff)
  with example_model_ok a m o(1) show ?thesis by blast
qed

lemma count_list_distinct:
  "distinct xs \<Longrightarrow> count_list xs x = (if x \<in> set xs then 1 else 0)"
  by (induction xs) auto

text \<open>
  C5. \<open>get_rating_columns\<close> returns the single-valued custom columns of datatype
  \<open>rating\<close> with the key \<open>rating\<close> set to a synthesized entry that carries the name of
  the host's built-in rating column: looked up, the result is the custom columns
  updated at \<open>rating\<close>; its keys are those of the custom columns and \<open>rating\<close>; and
  \<open>rating\<close> is among the keys exactly once, whether or not a custom column had that
  key.
\<close>

theorem get_rating_columns_union:
  assumes "host_ok model"
  shows "\<exists>rating_columns customs nm.
       get_rating_columns model = Inr rating_columns
     \<and> get_custom_columns model [''rating''] = Inr customs
     \<and> customs = filter (\<lambda>(key, col). col_datatype col = Some ''rating''
                                        \<and> col_is_multiple col = Some False)
                    (custom_columns model)
     \<and> map_of (orig_headers model) ''rating'' = Some nm
     \<and> map_of rating_columns
         = (map_of customs)(''rating'' \<mapsto>
              \<lparr>col_name = Some nm, col_datatype = None, col_is_multiple = None\<rparr>)
     \<and> set (dict_keys rating_columns) = insert ''rating'' (set (dict_keys customs))
     \<and> count_list (dict_keys rating_columns) ''rating'' = 1"
proof -
  let ?customs = "filter (eligible [''rating'']) (custom_columns model)"
  let ?r = "dict_set ?customs ''rating'' (builtin_rating model)"
  from assms obtain nm where nm: "map_of (orig_headers model) ''rating'' = Some nm"
    by (auto simp: host_ok_def)
  from assms have c: "get_custom_columns model [''rating''] = Inr ?customs"
    by (simp add: host_ok_def get_custom_columns_closed)
  have e: "?customs = filter (\<lambda>(key, col). col_datatype col = Some ''rating''
                                        \<and> col_is_multiple col = Some False)
                    (custom_columns model)"
    by (simp add: eligible_unfold)
  from assms have "distinct (map fst ?customs)"
    by (simp add: host_ok_def dict_keys_def distinct_map_filter)
  then have d: "distinct (dict_keys ?r)"
    by (simp add: dict_keys_def dict_set_def distinct_update)
  have k: "set (dict_keys ?r) = insert ''rating'' (set (dict_keys ?customs))"
    by (simp add: dict_keys_def dict_set_def dom_update del: set_filter)
  have "count_list (dict_keys ?r) ''rating'' = 1"
    by (simp add: count_list_distinct [OF d] k)
  moreover have "map_of ?r = (map_of ?customs)(''rating'' \<mapsto>
              \<lparr>col_name = Some nm, col_datatype = None, col_is_multiple = None\<rparr>)"
    by (simp add: dict_set_def update_conv' builtin_rating_def nm)
  ultimately show ?thesis
    using get_rating_columns_closed [OF assms] c e nm k by blast
qed

theorem get_rating_columns_union_witness:
  "host_ok example_model_rating
   \<and> get_rating_columns example_model_rating
       = Inr [(''rating'', \<lparr>col_name = Some ''Rating'', col_datatype = None,
                              col_is_multiple = None\<rparr>),
              (''#stars'', \<lparr>col_name = Some ''Stars'', col_datatype = Some ''rating'',
                              col_is_multiple = Some False\<rparr>)]
   \<and> host_ok example_model_empty
   \<and> get_rating_columns example_model_empty
       = Inr [(''rating'', \<lparr>col_name = Some ''Rating'', col_datatype = None,
                              col_is_multiple = None\<rparr>)]"
proof -
  have a: "host_ok example_model_rating"
    by (auto simp: host_ok_def host_columns_ok_def example_model_rating_def dict_keys_def)
  have b: "host_ok example_model_empty"
    by (auto simp: host_ok_def host_columns_ok_def example_model_empty_def dict_keys_def)
  from get_rating_columns_union [OF a]
  have c: "get_rating_columns example_model_rating
       = Inr [(''rating'', \<lparr>col_name = Some ''Rating'', col_datatype = None,
                              col_is_multiple = None\<rparr>),
              (''#stars'', \<lparr>col_name = Some ''Stars'', col_datatype = Some ''rating'',
                              col_is_multiple = Some False\<rparr>)]"
    by (simp add: get_rating_columns_def get_custom_columns_def dict_get_def dict_set_def
        example_model_rating_def)
  from get_rating_columns_union [OF b]
  have d: "get_rating_columns example_model_empty
       = Inr [(''rating'', \<lparr>col_name = Some ''Rating'', col_datatype = None,
                              col_is_multiple = None\<rparr>)]"
    by (simp add: get_rating_columns_def get_custom_columns_def dict_get_def dict_set_def
        example_model_empty_def)
  from a b c d show ?thesis by blast
qed

subsection \<open>What save_settings writes\<close>

lemma fold_config_set_keys:
  "set (dict_keys (stored (fold (\<lambda>f c. config_set c (name f) (written f)) fs cfg)))
     = set (dict_keys (stored cfg)) \<union> name ` set fs"
  by (induction fs arbitrary: cfg)
     (auto simp: config_set_def dict_set_def dict_keys_def dom_update)

lemma selected_key_iff:
  "selected_key f \<noteq> None \<longleftrightarrow> (\<exists>cb key. combo f = Some cb \<and> get_selected_column cb = Inr key)"
proof (cases "combo f")
  case None
  then show ?thesis by (simp add: selected_key_def)
next
  case (Some cb)
  then show ?thesis by (cases "get_selected_column cb") (simp_all add: selected_key_def)
qed

text \<open>
  C9. For the entries of \<open>COLUMNS\<close> with their combo boxes, \<open>save_settings\<close> stores under
  the name of every entry the key selected in its combo box, whatever was stored
  before; the keys of the stored dict are the old ones and the names of \<open>COLUMNS\<close>;
  an entry under any other key, and the defaults, are as before.
\<close>

theorem save_settings_overwrites:
  assumes "map name fs = map name (COLUMNS ext)"
    and "list_all (\<lambda>f. \<exists>cb key. combo f = Some cb \<and> get_selected_column cb = Inr key) fs"
  shows "\<exists>cfg'. save_settings fs cfg = Inr cfg'
     \<and> defaults cfg' = defaults cfg
     \<and> list_all (\<lambda>f. \<exists>cb key. combo f = Some cb \<and> get_selected_column cb = Inr key
                        \<and> map_of (stored cfg') (name f) = Some key) fs
     \<and> set (dict_keys (stored cfg'))
         = set (dict_keys (stored cfg)) \<union> set (map name (COLUMNS ext))
     \<and> (\<forall>k. k \<notin> set (map name (COLUMNS ext)) \<longrightarrow>
           map_of (stored cfg') k = map_of (stored cfg) k)"
proof -
  let ?cfg' = "fold (\<lambda>f c. config_set c (name f) (written f)) fs cfg"
  have sel: "list_all (\<lambda>f. selected_key f \<noteq> None) fs"
    unfolding selected_key_iff by (rule assms(2))
  have names: "name ` set fs = set (map name (COLUMNS ext))"
    using assms(1) by (metis list.set_map)
  have d: "distinct (map name fs)" using assms(1) COLUMNS_distinct by simp
  have "\<exists>cb key. combo f = Some cb \<and> get_selected_column cb = Inr key
                        \<and> map_of (stored ?cfg') (name f) = Some key"
    if f: "f \<in> set fs" for f
  proof -
    from assms(2) f obtain cb key where c: "combo f = Some cb" "get_selected_column cb = Inr key"
      by (auto simp: list_all_iff)
    then have "written f = key" by (simp add: written_def selected_key_def)
    with fold_config_set_written [OF d f, of cfg] c show ?thesis by simp
  qed
  then have w: "list_all (\<lambda>f. \<exists>cb key. combo f = Some cb \<and> get_selected_column cb = Inr key
                        \<and> map_of (stored ?cfg') (name f) = Some key) fs"
    by (simp add: list_all_iff)
  have o: "\<forall>k. k \<notin> set (map name (COLUMNS ext)) \<longrightarrow>
           map_of (stored ?cfg') k = map_of (stored cfg) k"
    using fold_config_set_other [of _ fs cfg] unfolding names by blast
  have k: "set (dict_keys (stored ?cfg'))
         = set (dict_keys (stored cfg)) \<union> set (map name (COLUMNS ext))"
    unfolding fold_config_set_keys names ..
  from save_settings_closed [OF sel, of cfg] fold_config_set_defaults [of fs cfg] w k o
  show ?thesis by blast
qed

theorem save_settings_overwrites_witness:
  "\<exists>opened cfg'.
       CustomColumnsLayout example_model (CONFIG example_ext example_loaded)
         (COLUMNS example_ext) = Inr opened
     \<and> map name (apply_choices example_choice opened) = map name (COLUMNS example_ext)
     \<and> list_all (\<lambda>f. \<exists>cb key. combo f = Some cb \<and> get_selected_column cb = Inr key)
          (apply_choices example_choice opened)
     \<and> save_settings (apply_choices example_choice opened)
          (CONFIG example_ext example_loaded) = Inr cfg'
     \<and> map_of (stored (CONFIG example_ext example_loaded)) ''column_md5'' = Some ''#gone''
     \<and> map_of (stored cfg') ''column_md5'' = Some ''''
     \<and> map_of (stored cfg') ''column_status'' = Some ''#where''
     \<and> ''column_highlights'' \<notin> set (map name (COLUMNS example_ext))
     \<and> map_of (stored cfg') ''column_highlights'' = Some ''#hl''"
proof -
  let ?cfg = "CONFIG example_ext example_loaded"
  let ?opened = "map (with_combo example_model ?cfg) (COLUMNS example_ext)"
  let ?fs = "apply_choices example_choice ?opened"
  have o: "CustomColumnsLayout example_model ?cfg (COLUMNS example_ext) = Inr ?opened"
    by (rule layout_with_combo [OF example_model_ok CONFIG_ready])
  have n: "map name ?fs = map name (COLUMNS example_ext)"
    using chosen_with_combo by (simp add: apply_choices_map)
  have "list_all (\<lambda>f. selected_key f \<noteq> None) ?fs"
    using chosen_all_selected [of example_choice example_model ?cfg "COLUMNS example_ext"]
    by (simp add: apply_choices_map)
  then have s: "list_all (\<lambda>f. \<exists>cb key. combo f = Some cb \<and> get_selected_column cb = Inr key) ?fs"
    unfolding selected_key_iff .
  from save_settings_overwrites [OF n s, of ?cfg] obtain cfg' where
    c: "save_settings ?fs ?cfg = Inr cfg'"
       "\<forall>k. k \<notin> set (map name (COLUMNS example_ext)) \<longrightarrow>
           map_of (stored cfg') k = map_of (stored ?cfg) k"
    by blast
  have h: "''column_highlights'' \<notin> set (map name (COLUMNS example_ext))"
    by (simp add: COLUMNS_def)
  have st: "stored ?cfg = example_loaded"
    by (simp add: CONFIG_def set_defaults_stored)
  have md: "map_of (stored ?cfg) ''column_md5'' = Some ''#gone''"
    "map_of (stored ?cfg) ''column_highlights'' = Some ''#hl''"
    unfolding st by (simp_all add: example_loaded_def)
  from c(2) h have "map_of (stored cfg') ''column_highlights''
      = map_of (stored ?cfg) ''column_highlights''"
    by blast
  with md(2) have hl: "map_of (stored cfg') ''column_highlights'' = Some ''#hl''" by simp
  from example_save o c(1) have "stored cfg' =
        [(''column_highlights'', ''#hl''), (''column_md5'', ''''),
          (''column_percent_read'', ''''), (''column_percent_read_int'', ''''),
          (''column_last_read_location'', ''''), (''column_rating'', ''''),
          (''column_review'', ''''), (''column_status'', ''#where''),
          (''column_date_status_modified'', ''''), (''column_bookmarks'', ''''),
          (''column_sidecar'', '''')]"
    by simp
  then have "map_of (stored cfg') ''column_md5'' = Some ''''"
    "map_of (stored cfg') ''column_status'' = Some ''#where''"
    by simp_all
  with o n s c(1) md(1) h hl show ?thesis by blast
qed

subsection \<open>Rounding to binary64\<close>

lemma round_half_even_of_int: "round_half_even (of_int n) = n"
  by (simp add: round_half_even_def)



lemma pow2_exp_less: "(2::rat) powi a < 2 powi b \<Longrightarrow> a < b"
  by (rule ccontr) (simp add: not_less power_int_increasing leD)

lemma ilog2_bounds:
  assumes "0 < x"
  shows "2 powi (ilog2 x) \<le> x \<and> x < 2 powi (ilog2 x + 1)"
proof -
  obtain p q where pq: "quotient_of x = (p, q)" by (cases "quotient_of x")
  then have q: "0 < q" and x: "x = of_int p / of_int q"
    by (simp_all add: quotient_of_denom_pos quotient_of_div)
  from assms x q have p: "0 < p" by (simp add: zero_less_divide_iff)
  let ?a = "bitlen p" and ?b = "bitlen q"
  from p q have a1: "1 \<le> ?a" and b1: "1 \<le> ?b" by (auto simp: bitlen_alt_def)
  from bitlen_bounds [OF p] have "of_int (2 ^ nat (?a - 1)) \<le> (of_int p :: rat)"
    "(of_int p :: rat) < of_int (2 ^ nat ?a)"
    by (simp_all only: of_int_le_iff of_int_less_iff)
  with a1 have pb: "2 powi (?a - 1) \<le> (of_int p :: rat)" "(of_int p :: rat) < 2 powi ?a"
    by (simp_all add: power_int_nonneg_exp)
  from bitlen_bounds [OF q] have "of_int (2 ^ nat (?b - 1)) \<le> (of_int q :: rat)"
    "(of_int q :: rat) < of_int (2 ^ nat ?b)"
    by (simp_all only: of_int_le_iff of_int_less_iff)
  with b1 have qb: "2 powi (?b - 1) \<le> (of_int q :: rat)" "(of_int q :: rat) < 2 powi ?b"
    by (simp_all add: power_int_nonneg_exp)
  let ?e = "?a - ?b"
  have qpos: "0 < (of_int q :: rat)" using q by simp
  have "(2::rat) powi (?e + 1) * 2 powi (?b - 1) = 2 powi ?a"
    by (simp add: power_int_add [symmetric])
  moreover have "(2::rat) powi (?e + 1) * 2 powi (?b - 1) \<le> 2 powi (?e + 1) * of_int q"
    using qb(1) by (simp add: mult_left_mono)
  ultimately have "of_int p < (2::rat) powi (?e + 1) * of_int q" using pb(2) by linarith
  then have up: "x < 2 powi (?e + 1)" using qpos by (simp add: x pos_divide_less_eq)
  have "(2::rat) powi (?e - 1) * 2 powi ?b = 2 powi (?a - 1)"
    by (simp add: power_int_add [symmetric])
  moreover have "(2::rat) powi (?e - 1) * of_int q < 2 powi (?e - 1) * 2 powi ?b"
    using qb(2) by (simp add: mult_strict_left_mono)
  ultimately have "(2::rat) powi (?e - 1) * of_int q < of_int p" using pb(1) by linarith
  then have lo: "2 powi (?e - 1) < x" using qpos by (simp add: x pos_less_divide_eq)
  show ?thesis
  proof (cases "2 powi ?e \<le> x")
    case True
    with up show ?thesis by (simp add: ilog2_def pq)
  next
    case False
    with lo show ?thesis by (simp add: ilog2_def pq not_le less_imp_le)
  qed
qed

lemma ilog2_unique:
  assumes "0 < x" and "2 powi e \<le> x" and "x < 2 powi (e + 1)"
  shows "ilog2 x = e"
proof -
  from ilog2_bounds [OF assms(1)] have b: "2 powi (ilog2 x) \<le> x" "x < 2 powi (ilog2 x + 1)"
    by simp_all
  from b(1) assms(3) have "(2::rat) powi (ilog2 x) < 2 powi (e + 1)" by simp
  then have "ilog2 x < e + 1" by (rule pow2_exp_less)
  moreover from assms(2) b(2) have "(2::rat) powi e < 2 powi (ilog2 x + 1)" by simp
  then have "e < ilog2 x + 1" by (rule pow2_exp_less)
  ultimately show ?thesis by simp
qed

lemma ilog2_twice: "0 < x \<Longrightarrow> ilog2 (2 * x) = ilog2 x + 1"
  using ilog2_bounds [of x] by (intro ilog2_unique) (simp_all add: power_int_add)


lemma round_half_even_near:
  assumes "of_int n - 1 / 2 < y" and "y < of_int n + 1 / 2"
  shows "round_half_even y = n"
proof (cases "of_int n \<le> y")
  case True
  with assms(2) have "\<lfloor>y\<rfloor> = n" by (simp add: floor_unique)
  with assms(2) show ?thesis by (simp add: round_half_even_def)
next
  case False
  with assms(1) have "\<lfloor>y\<rfloor> = n - 1" by (simp add: floor_unique)
  with assms(1) show ?thesis by (simp add: round_half_even_def)
qed

lemma round_double_eval:
  assumes "0 < x" and "2 powi e \<le> x" and "x < 2 powi (e + 1)" and "- 1022 \<le> e"
    and "of_int n - 1 / 2 < x / 2 powi (e - 52)" and "x / 2 powi (e - 52) < of_int n + 1 / 2"
    and "of_int n * 2 powi (e - 52) < (2::rat) powi 1024"
  shows "round_double x = Some (of_int n * 2 powi (e - 52))"
proof -
  from assms(1-3) have "ilog2 x = e" by (rule ilog2_unique)
  moreover from assms(5,6) have "round_half_even (x / 2 powi (e - 52)) = n"
    by (rule round_half_even_near)
  ultimately show ?thesis using assms(1,4,7)
    by (simp add: round_double_def Let_def max_def)
qed

lemma int_to_double_100: "int_to_double 100 = Inr (Finite False 100)"
proof -
  have "round_double 100 = Some (of_int (100 * 2 ^ 46) * 2 powi (6 - 52))"
    by (rule round_double_eval) simp_all
  then show ?thesis by (simp add: int_to_double_def)
qed

lemma int_to_double_2: "int_to_double 2 = Inr (Finite False 2)"
proof -
  have "round_double 2 = Some (of_int (2 ^ 52) * 2 powi (1 - 52))"
    by (rule round_double_eval) simp_all
  then show ?thesis by (simp add: int_to_double_def)
qed



lemma is_double_multiple:
  assumes "is_double m" and "0 < m"
  shows "\<exists>n. m = of_int n * 2 powi (max (ilog2 m) (- 1022) - 52)"
proof -
  let ?u = "(2::rat) powi (max (ilog2 m) (- 1022) - 52)"
  from assms(1) have "round_double m = Some m" by (simp add: is_double_def)
  with assms(2) have "of_int (round_half_even (m / ?u)) * ?u = m"
    by (simp add: round_double_def Let_def split: if_splits)
  then have "m = of_int (round_half_even (m / ?u)) * ?u" by (rule sym)
  then show ?thesis by (rule exI)
qed

lemma round_double_twice:
  assumes "is_double m" and "m * 2 < 2 powi 1024"
  shows "round_double (m * 2) = Some (m * 2)"
proof (cases "m = 0")
  case True
  then show ?thesis by (simp add: round_double_def)
next
  case False
  with assms(1) have pos: "0 < m" by (simp add: is_double_def)
  let ?e = "max (ilog2 m) (- 1022)"
  let ?u = "(2::rat) powi (?e - 52)"
  from is_double_multiple [OF assms(1) pos] obtain n where n: "m = of_int n * ?u" by blast
  have u: "0 < ?u" by simp
  have l: "ilog2 (m * 2) = ilog2 m + 1" using ilog2_twice [OF pos] by (simp add: mult.commute)
  show ?thesis
  proof (cases "- 1022 \<le> ilog2 m")
    case True
    then have e: "max (ilog2 (m * 2)) (- 1022) = ?e + 1" by (simp add: l max_def)
    have u2: "(2::rat) powi (?e + 1 - 52) = ?u * 2"
      by (simp add: power_int_add [symmetric] power_int_diff)
    have "m * 2 / (?u * 2) = of_int n" using u by (subst n) simp
    then have "round_half_even (m * 2 / (?u * 2)) = n" by (simp add: round_half_even_of_int)
    moreover have "of_int n * (?u * 2) = m * 2" by (subst (2) n) simp
    ultimately show ?thesis
      using pos assms(2) unfolding round_double_def e u2 Let_def by simp
  next
    case False
    then have e: "max (ilog2 (m * 2)) (- 1022) = ?e" by (simp add: l max_def)
    have "m * 2 / ?u = of_int (n * 2)" using u by (subst n) simp
    then have "round_half_even (m * 2 / ?u) = n * 2" by (simp only: round_half_even_of_int)
    moreover have "of_int (n * 2) * ?u = m * 2" by (subst (2) n) simp
    ultimately show ?thesis
      using pos assms(2) unfolding round_double_def e Let_def by simp
  qed
qed

lemma is_double_twice:
  assumes "is_double m" and "m * 2 < 2 powi 1024"
  shows "is_double (m * 2)"
  using assms round_double_twice [OF assms] by (simp add: is_double_def)


lemma percent_read_int_finite:
  "transform_percent_read_int ext (PyFloat (Finite s m)) =
     (case round_double (m * 100) of
        None \<Rightarrow> Inl OverflowError
      | Some p \<Rightarrow> Inr (PyInt \<lfloor>if s then - p else p\<rfloor>))"
  by (simp add: transform_percent_read_int_def int_to_double_100 double_value_def
      split: option.splits)





lemma float_literal_4: "float_literal 4 = Finite False 4"
proof -
  have "round_double 4 = Some (of_int (2 ^ 52) * 2 powi (2 - 52))"
    by (rule round_double_eval) simp_all
  then show ?thesis by (simp add: float_literal_def)
qed

lemma float_literal_8: "float_literal 8 = Finite False 8"
proof -
  have "round_double 8 = Some (of_int (2 ^ 52) * 2 powi (3 - 52))"
    by (rule round_double_eval) simp_all
  then show ?thesis by (simp add: float_literal_def)
qed

lemma is_double_4: "is_double 4"
  using float_literal_4 by (simp add: float_literal_def is_double_def split: option.splits)

text \<open>
  C8. The transform of \<open>column_rating\<close> doubles its argument: an \<open>int\<close> \<open>i\<close> gives
  \<open>i * 2\<close>, and a float of magnitude at most 5 gives the float of exactly twice the
  magnitude, at most 10, with the same sign (the product needs no rounding); the
  float \<open>4.0\<close> gives \<open>8.0\<close>.
\<close>

theorem rating_transform_doubles:
  "name (COLUMNS ext ! 3) = ''column_rating''
   \<and> transform (COLUMNS ext ! 3) = Some transform_rating
   \<and> transform_rating (PyInt i) = Inr (PyInt (i * 2))
   \<and> (is_double m \<and> m \<le> 5 \<longrightarrow>
        transform_rating (PyFloat (Finite s m)) = Inr (PyFloat (Finite s (m * 2)))
        \<and> is_double (m * 2) \<and> m * 2 \<le> 10)
   \<and> transform_rating (PyFloat (float_literal 4)) = Inr (PyFloat (float_literal 8))"
proof (intro conjI impI)
  show "name (COLUMNS ext ! 3) = ''column_rating''" by (simp add: COLUMNS_def)
  show "transform (COLUMNS ext ! 3) = Some transform_rating" by (simp add: COLUMNS_def)
  show "transform_rating (PyInt i) = Inr (PyInt (i * 2))" by (simp add: transform_rating_def)
  have "round_double (4 * 2) = Some (4 * 2)"
    by (rule round_double_twice [OF is_double_4]) simp
  then show "transform_rating (PyFloat (float_literal 4)) = Inr (PyFloat (float_literal 8))"
    by (simp add: transform_rating_def float_literal_4 float_literal_8 int_to_double_2)
next
  assume a: "is_double m \<and> m \<le> 5"
  then have "m * 2 \<le> 10" by simp
  also have "(10::rat) < 2 powi 1024" by simp
  finally have b: "m * 2 < 2 powi 1024" .
  from a have d: "is_double m" by simp
  show "transform_rating (PyFloat (Finite s m)) = Inr (PyFloat (Finite s (m * 2)))"
    by (simp add: transform_rating_def int_to_double_2 round_double_twice [OF d b])
  show "is_double (m * 2)" by (rule is_double_twice [OF d b])
  from a show "m * 2 \<le> 10" by simp
qed

theorem rating_transform_doubles_witness:
  "is_double 4 \<and> (4::rat) \<le> 5
   \<and> transform_rating (PyFloat (Finite False 4)) = Inr (PyFloat (Finite False 8))
   \<and> transform_rating (PyInt 4) = Inr (PyInt 8)"
  using rating_transform_doubles [of example_ext 4 4 False] is_double_4 by simp

text \<open>
  The product in \<open>float(value) * 100\<close> is the rounded binary64 product, and the floor is
  taken of that: the float written \<open>0.29\<close> gives 28.
\<close>

lemma percent_read_int_029:
  "transform_percent_read_int ext (PyFloat (float_literal (29 / 100))) = Inr (PyInt 28)"
proof -
  have "round_double (29 / 100) = Some (of_int 5224175567749775 * 2 powi (- 2 - 52))"
    by (rule round_double_eval) simp_all
  then have l: "float_literal (29 / 100) = Finite False (5224175567749775 / 2 ^ 54)"
    by (simp add: float_literal_def)
  have r: "round_double (5224175567749775 / 2 ^ 54 * 100)
          = Some (of_int 8162774324609023 * 2 powi (4 - 52))"
    by (rule round_double_eval) simp_all
  have f: "\<lfloor>of_int 8162774324609023 * 2 powi (4 - 52) :: rat\<rfloor> = 28"
    by (rule floor_unique) simp_all
  show ?thesis
    by (simp only: l percent_read_int_finite r option.case if_False f)
qed

subsection \<open>The indented serialization\<close>

lemma indent2_append [simp]: "indent2 (a @ b) = indent2 a @ indent2 b"
  by (simp add: indent2_def)









lemma indent2_Nil [simp]: "indent2 [] = []"
  by (simp add: indent2_def)

lemma indent2_Cons [simp]:
  "indent2 (c # s) = (if c = CHR 0x0A then [CHR 0x0A, CHR 0x20, CHR 0x20] else [c]) @ indent2 s"
  by (simp add: indent2_def)













end
